theory Spec2Isabelle
  imports Main "HOL-Library.AList"
begin

section \<open>Text\<close>

text \<open>
  A Python \<open>str\<close> is a sequence of Unicode code points, modelled as a list of natural
  numbers. The literals of the program are written as Isabelle strings and read through
  \<open>cps\<close>. The character classes below are those of Python's \<open>re\<close> module (for \<open>str\<close>
  patterns, without the ASCII flag) and of \<open>str.upper\<close>, with the tables of Unicode 14.0
  for the code points from 128 on; a number that is no code point is in no class.
\<close>

type_synonym str = "nat list"

definition cps :: "string \<Rightarrow> str" where
  "cps s = map of_char s"

definition nl :: nat where
  "nl = 10"

text \<open>\<open>xs[a:b]\<close> for indices \<open>0 \<le> a\<close>, \<open>0 \<le> b\<close>: the slice clips at the end of the list.\<close>

definition slice :: "'a list \<Rightarrow> nat \<Rightarrow> nat \<Rightarrow> 'a list" where
  "slice xs a b = take (b - a) (drop a xs)"

text \<open>
  The ranges of the code points from 128 on that \<open>\w\<close> matches (the alphanumeric ones),
  in parts of 64 ranges.
\<close>

definition word_ranges_1 :: "(nat \<times> nat) list" where
  "word_ranges_1 =
   [(170, 170), (178, 179), (181, 181), (185, 186), (188, 190), (192, 214), (216, 246),
    (248, 705), (710, 721), (736, 740), (748, 748), (750, 750), (880, 884), (886, 887),
    (890, 893), (895, 895), (902, 902), (904, 906), (908, 908), (910, 929), (931, 1013),
    (1015, 1153), (1162, 1327), (1329, 1366), (1369, 1369), (1376, 1416), (1488, 1514),
    (1519, 1522), (1568, 1610), (1632, 1641), (1646, 1647), (1649, 1747), (1749, 1749),
    (1765, 1766), (1774, 1788), (1791, 1791), (1808, 1808), (1810, 1839), (1869, 1957),
    (1969, 1969), (1984, 2026), (2036, 2037), (2042, 2042), (2048, 2069), (2074, 2074),
    (2084, 2084), (2088, 2088), (2112, 2136), (2144, 2154), (2160, 2183), (2185, 2190),
    (2208, 2249), (2308, 2361), (2365, 2365), (2384, 2384), (2392, 2401), (2406, 2415),
    (2417, 2432), (2437, 2444), (2447, 2448), (2451, 2472), (2474, 2480), (2482, 2482),
    (2486, 2489)]"

definition word_ranges_2 :: "(nat \<times> nat) list" where
  "word_ranges_2 =
   [(2493, 2493), (2510, 2510), (2524, 2525), (2527, 2529), (2534, 2545), (2548, 2553),
    (2556, 2556), (2565, 2570), (2575, 2576), (2579, 2600), (2602, 2608), (2610, 2611),
    (2613, 2614), (2616, 2617), (2649, 2652), (2654, 2654), (2662, 2671), (2674, 2676),
    (2693, 2701), (2703, 2705), (2707, 2728), (2730, 2736), (2738, 2739), (2741, 2745),
    (2749, 2749), (2768, 2768), (2784, 2785), (2790, 2799), (2809, 2809), (2821, 2828),
    (2831, 2832), (2835, 2856), (2858, 2864), (2866, 2867), (2869, 2873), (2877, 2877),
    (2908, 2909), (2911, 2913), (2918, 2927), (2929, 2935), (2947, 2947), (2949, 2954),
    (2958, 2960), (2962, 2965), (2969, 2970), (2972, 2972), (2974, 2975), (2979, 2980),
    (2984, 2986), (2990, 3001), (3024, 3024), (3046, 3058), (3077, 3084), (3086, 3088),
    (3090, 3112), (3114, 3129), (3133, 3133), (3160, 3162), (3165, 3165), (3168, 3169),
    (3174, 3183), (3192, 3198), (3200, 3200), (3205, 3212)]"

definition word_ranges_3 :: "(nat \<times> nat) list" where
  "word_ranges_3 =
   [(3214, 3216), (3218, 3240), (3242, 3251), (3253, 3257), (3261, 3261), (3293, 3294),
    (3296, 3297), (3302, 3311), (3313, 3314), (3332, 3340), (3342, 3344), (3346, 3386),
    (3389, 3389), (3406, 3406), (3412, 3414), (3416, 3425), (3430, 3448), (3450, 3455),
    (3461, 3478), (3482, 3505), (3507, 3515), (3517, 3517), (3520, 3526), (3558, 3567),
    (3585, 3632), (3634, 3635), (3648, 3654), (3664, 3673), (3713, 3714), (3716, 3716),
    (3718, 3722), (3724, 3747), (3749, 3749), (3751, 3760), (3762, 3763), (3773, 3773),
    (3776, 3780), (3782, 3782), (3792, 3801), (3804, 3807), (3840, 3840), (3872, 3891),
    (3904, 3911), (3913, 3948), (3976, 3980), (4096, 4138), (4159, 4169), (4176, 4181),
    (4186, 4189), (4193, 4193), (4197, 4198), (4206, 4208), (4213, 4225), (4238, 4238),
    (4240, 4249), (4256, 4293), (4295, 4295), (4301, 4301), (4304, 4346), (4348, 4680),
    (4682, 4685), (4688, 4694), (4696, 4696), (4698, 4701)]"

definition word_ranges_4 :: "(nat \<times> nat) list" where
  "word_ranges_4 =
   [(4704, 4744), (4746, 4749), (4752, 4784), (4786, 4789), (4792, 4798), (4800, 4800),
    (4802, 4805), (4808, 4822), (4824, 4880), (4882, 4885), (4888, 4954), (4969, 4988),
    (4992, 5007), (5024, 5109), (5112, 5117), (5121, 5740), (5743, 5759), (5761, 5786),
    (5792, 5866), (5870, 5880), (5888, 5905), (5919, 5937), (5952, 5969), (5984, 5996),
    (5998, 6000), (6016, 6067), (6103, 6103), (6108, 6108), (6112, 6121), (6128, 6137),
    (6160, 6169), (6176, 6264), (6272, 6276), (6279, 6312), (6314, 6314), (6320, 6389),
    (6400, 6430), (6470, 6509), (6512, 6516), (6528, 6571), (6576, 6601), (6608, 6618),
    (6656, 6678), (6688, 6740), (6784, 6793), (6800, 6809), (6823, 6823), (6917, 6963),
    (6981, 6988), (6992, 7001), (7043, 7072), (7086, 7141), (7168, 7203), (7232, 7241),
    (7245, 7293), (7296, 7304), (7312, 7354), (7357, 7359), (7401, 7404), (7406, 7411),
    (7413, 7414), (7418, 7418), (7424, 7615), (7680, 7957)]"

definition word_ranges_5 :: "(nat \<times> nat) list" where
  "word_ranges_5 =
   [(7960, 7965), (7968, 8005), (8008, 8013), (8016, 8023), (8025, 8025), (8027, 8027),
    (8029, 8029), (8031, 8061), (8064, 8116), (8118, 8124), (8126, 8126), (8130, 8132),
    (8134, 8140), (8144, 8147), (8150, 8155), (8160, 8172), (8178, 8180), (8182, 8188),
    (8304, 8305), (8308, 8313), (8319, 8329), (8336, 8348), (8450, 8450), (8455, 8455),
    (8458, 8467), (8469, 8469), (8473, 8477), (8484, 8484), (8486, 8486), (8488, 8488),
    (8490, 8493), (8495, 8505), (8508, 8511), (8517, 8521), (8526, 8526), (8528, 8585),
    (9312, 9371), (9450, 9471), (10102, 10131), (11264, 11492), (11499, 11502), (11506, 11507),
    (11517, 11517), (11520, 11557), (11559, 11559), (11565, 11565), (11568, 11623),
    (11631, 11631), (11648, 11670), (11680, 11686), (11688, 11694), (11696, 11702),
    (11704, 11710), (11712, 11718), (11720, 11726), (11728, 11734), (11736, 11742),
    (11823, 11823), (12293, 12295), (12321, 12329), (12337, 12341), (12344, 12348),
    (12353, 12438), (12445, 12447)]"

definition word_ranges_6 :: "(nat \<times> nat) list" where
  "word_ranges_6 =
   [(12449, 12538), (12540, 12543), (12549, 12591), (12593, 12686), (12690, 12693),
    (12704, 12735), (12784, 12799), (12832, 12841), (12872, 12879), (12881, 12895),
    (12928, 12937), (12977, 12991), (13312, 19903), (19968, 42124), (42192, 42237),
    (42240, 42508), (42512, 42539), (42560, 42606), (42623, 42653), (42656, 42735),
    (42775, 42783), (42786, 42888), (42891, 42954), (42960, 42961), (42963, 42963),
    (42965, 42969), (42994, 43009), (43011, 43013), (43015, 43018), (43020, 43042),
    (43056, 43061), (43072, 43123), (43138, 43187), (43216, 43225), (43250, 43255),
    (43259, 43259), (43261, 43262), (43264, 43301), (43312, 43334), (43360, 43388),
    (43396, 43442), (43471, 43481), (43488, 43492), (43494, 43518), (43520, 43560),
    (43584, 43586), (43588, 43595), (43600, 43609), (43616, 43638), (43642, 43642),
    (43646, 43695), (43697, 43697), (43701, 43702), (43705, 43709), (43712, 43712),
    (43714, 43714), (43739, 43741), (43744, 43754), (43762, 43764), (43777, 43782),
    (43785, 43790), (43793, 43798), (43808, 43814), (43816, 43822)]"

definition word_ranges_7 :: "(nat \<times> nat) list" where
  "word_ranges_7 =
   [(43824, 43866), (43868, 43881), (43888, 44002), (44016, 44025), (44032, 55203),
    (55216, 55238), (55243, 55291), (63744, 64109), (64112, 64217), (64256, 64262),
    (64275, 64279), (64285, 64285), (64287, 64296), (64298, 64310), (64312, 64316),
    (64318, 64318), (64320, 64321), (64323, 64324), (64326, 64433), (64467, 64829),
    (64848, 64911), (64914, 64967), (65008, 65019), (65136, 65140), (65142, 65276),
    (65296, 65305), (65313, 65338), (65345, 65370), (65382, 65470), (65474, 65479),
    (65482, 65487), (65490, 65495), (65498, 65500), (65536, 65547), (65549, 65574),
    (65576, 65594), (65596, 65597), (65599, 65613), (65616, 65629), (65664, 65786),
    (65799, 65843), (65856, 65912), (65930, 65931), (66176, 66204), (66208, 66256),
    (66273, 66299), (66304, 66339), (66349, 66378), (66384, 66421), (66432, 66461),
    (66464, 66499), (66504, 66511), (66513, 66517), (66560, 66717), (66720, 66729),
    (66736, 66771), (66776, 66811), (66816, 66855), (66864, 66915), (66928, 66938),
    (66940, 66954), (66956, 66962), (66964, 66965), (66967, 66977)]"

definition word_ranges_8 :: "(nat \<times> nat) list" where
  "word_ranges_8 =
   [(66979, 66993), (66995, 67001), (67003, 67004), (67072, 67382), (67392, 67413),
    (67424, 67431), (67456, 67461), (67463, 67504), (67506, 67514), (67584, 67589),
    (67592, 67592), (67594, 67637), (67639, 67640), (67644, 67644), (67647, 67669),
    (67672, 67702), (67705, 67742), (67751, 67759), (67808, 67826), (67828, 67829),
    (67835, 67867), (67872, 67897), (67968, 68023), (68028, 68047), (68050, 68096),
    (68112, 68115), (68117, 68119), (68121, 68149), (68160, 68168), (68192, 68222),
    (68224, 68255), (68288, 68295), (68297, 68324), (68331, 68335), (68352, 68405),
    (68416, 68437), (68440, 68466), (68472, 68497), (68521, 68527), (68608, 68680),
    (68736, 68786), (68800, 68850), (68858, 68899), (68912, 68921), (69216, 69246),
    (69248, 69289), (69296, 69297), (69376, 69415), (69424, 69445), (69457, 69460),
    (69488, 69505), (69552, 69579), (69600, 69622), (69635, 69687), (69714, 69743),
    (69745, 69746), (69749, 69749), (69763, 69807), (69840, 69864), (69872, 69881),
    (69891, 69926), (69942, 69951), (69956, 69956), (69959, 69959)]"

definition word_ranges_9 :: "(nat \<times> nat) list" where
  "word_ranges_9 =
   [(69968, 70002), (70006, 70006), (70019, 70066), (70081, 70084), (70096, 70106),
    (70108, 70108), (70113, 70132), (70144, 70161), (70163, 70187), (70272, 70278),
    (70280, 70280), (70282, 70285), (70287, 70301), (70303, 70312), (70320, 70366),
    (70384, 70393), (70405, 70412), (70415, 70416), (70419, 70440), (70442, 70448),
    (70450, 70451), (70453, 70457), (70461, 70461), (70480, 70480), (70493, 70497),
    (70656, 70708), (70727, 70730), (70736, 70745), (70751, 70753), (70784, 70831),
    (70852, 70853), (70855, 70855), (70864, 70873), (71040, 71086), (71128, 71131),
    (71168, 71215), (71236, 71236), (71248, 71257), (71296, 71338), (71352, 71352),
    (71360, 71369), (71424, 71450), (71472, 71483), (71488, 71494), (71680, 71723),
    (71840, 71922), (71935, 71942), (71945, 71945), (71948, 71955), (71957, 71958),
    (71960, 71983), (71999, 71999), (72001, 72001), (72016, 72025), (72096, 72103),
    (72106, 72144), (72161, 72161), (72163, 72163), (72192, 72192), (72203, 72242),
    (72250, 72250), (72272, 72272), (72284, 72329), (72349, 72349)]"

definition word_ranges_10 :: "(nat \<times> nat) list" where
  "word_ranges_10 =
   [(72368, 72440), (72704, 72712), (72714, 72750), (72768, 72768), (72784, 72812),
    (72818, 72847), (72960, 72966), (72968, 72969), (72971, 73008), (73030, 73030),
    (73040, 73049), (73056, 73061), (73063, 73064), (73066, 73097), (73112, 73112),
    (73120, 73129), (73440, 73458), (73648, 73648), (73664, 73684), (73728, 74649),
    (74752, 74862), (74880, 75075), (77712, 77808), (77824, 78894), (82944, 83526),
    (92160, 92728), (92736, 92766), (92768, 92777), (92784, 92862), (92864, 92873),
    (92880, 92909), (92928, 92975), (92992, 92995), (93008, 93017), (93019, 93025),
    (93027, 93047), (93053, 93071), (93760, 93846), (93952, 94026), (94032, 94032),
    (94099, 94111), (94176, 94177), (94179, 94179), (94208, 100343), (100352, 101589),
    (101632, 101640), (110576, 110579), (110581, 110587), (110589, 110590), (110592, 110882),
    (110928, 110930), (110948, 110951), (110960, 111355), (113664, 113770), (113776, 113788),
    (113792, 113800), (113808, 113817), (119520, 119539), (119648, 119672), (119808, 119892),
    (119894, 119964), (119966, 119967), (119970, 119970), (119973, 119974)]"

definition word_ranges_11 :: "(nat \<times> nat) list" where
  "word_ranges_11 =
   [(119977, 119980), (119982, 119993), (119995, 119995), (119997, 120003), (120005, 120069),
    (120071, 120074), (120077, 120084), (120086, 120092), (120094, 120121), (120123, 120126),
    (120128, 120132), (120134, 120134), (120138, 120144), (120146, 120485), (120488, 120512),
    (120514, 120538), (120540, 120570), (120572, 120596), (120598, 120628), (120630, 120654),
    (120656, 120686), (120688, 120712), (120714, 120744), (120746, 120770), (120772, 120779),
    (120782, 120831), (122624, 122654), (123136, 123180), (123191, 123197), (123200, 123209),
    (123214, 123214), (123536, 123565), (123584, 123627), (123632, 123641), (124896, 124902),
    (124904, 124907), (124909, 124910), (124912, 124926), (124928, 125124), (125127, 125135),
    (125184, 125251), (125259, 125259), (125264, 125273), (126065, 126123), (126125, 126127),
    (126129, 126132), (126209, 126253), (126255, 126269), (126464, 126467), (126469, 126495),
    (126497, 126498), (126500, 126500), (126503, 126503), (126505, 126514), (126516, 126519),
    (126521, 126521), (126523, 126523), (126530, 126530), (126535, 126535), (126537, 126537),
    (126539, 126539), (126541, 126543), (126545, 126546), (126548, 126548)]"

definition word_ranges_12 :: "(nat \<times> nat) list" where
  "word_ranges_12 =
   [(126551, 126551), (126553, 126553), (126555, 126555), (126557, 126557), (126559, 126559),
    (126561, 126562), (126564, 126564), (126567, 126570), (126572, 126578), (126580, 126583),
    (126585, 126588), (126590, 126590), (126592, 126601), (126603, 126619), (126625, 126627),
    (126629, 126633), (126635, 126651), (127232, 127244), (130032, 130041), (131072, 173791),
    (173824, 177976), (177984, 178205), (178208, 183969), (183984, 191456), (194560, 195101),
    (196608, 201546)]"

definition word_ranges :: "(nat \<times> nat) list list" where
  "word_ranges = [word_ranges_1, word_ranges_2, word_ranges_3, word_ranges_4, word_ranges_5, word_ranges_6, word_ranges_7, word_ranges_8, word_ranges_9, word_ranges_10, word_ranges_11, word_ranges_12]"

text \<open>
  The code points from 128 on that \<open>str.upper\<close> changes, each with its upper-case form
  (one to three code points), in parts of 64 entries.
\<close>

definition upper_table_1 :: "(nat \<times> nat list) list" where
  "upper_table_1 =
   [(181, [924]), (223, [83, 83]), (224, [192]), (225, [193]), (226, [194]), (227, [195]),
    (228, [196]), (229, [197]), (230, [198]), (231, [199]), (232, [200]), (233, [201]),
    (234, [202]), (235, [203]), (236, [204]), (237, [205]), (238, [206]), (239, [207]),
    (240, [208]), (241, [209]), (242, [210]), (243, [211]), (244, [212]), (245, [213]),
    (246, [214]), (248, [216]), (249, [217]), (250, [218]), (251, [219]), (252, [220]),
    (253, [221]), (254, [222]), (255, [376]), (257, [256]), (259, [258]), (261, [260]),
    (263, [262]), (265, [264]), (267, [266]), (269, [268]), (271, [270]), (273, [272]),
    (275, [274]), (277, [276]), (279, [278]), (281, [280]), (283, [282]), (285, [284]),
    (287, [286]), (289, [288]), (291, [290]), (293, [292]), (295, [294]), (297, [296]),
    (299, [298]), (301, [300]), (303, [302]), (305, [73]), (307, [306]), (309, [308]),
    (311, [310]), (314, [313]), (316, [315]), (318, [317])]"

definition upper_table_2 :: "(nat \<times> nat list) list" where
  "upper_table_2 =
   [(320, [319]), (322, [321]), (324, [323]), (326, [325]), (328, [327]), (329, [700, 78]),
    (331, [330]), (333, [332]), (335, [334]), (337, [336]), (339, [338]), (341, [340]),
    (343, [342]), (345, [344]), (347, [346]), (349, [348]), (351, [350]), (353, [352]),
    (355, [354]), (357, [356]), (359, [358]), (361, [360]), (363, [362]), (365, [364]),
    (367, [366]), (369, [368]), (371, [370]), (373, [372]), (375, [374]), (378, [377]),
    (380, [379]), (382, [381]), (383, [83]), (384, [579]), (387, [386]), (389, [388]),
    (392, [391]), (396, [395]), (402, [401]), (405, [502]), (409, [408]), (410, [573]),
    (414, [544]), (417, [416]), (419, [418]), (421, [420]), (424, [423]), (429, [428]),
    (432, [431]), (436, [435]), (438, [437]), (441, [440]), (445, [444]), (447, [503]),
    (453, [452]), (454, [452]), (456, [455]), (457, [455]), (459, [458]), (460, [458]),
    (462, [461]), (464, [463]), (466, [465]), (468, [467])]"

definition upper_table_3 :: "(nat \<times> nat list) list" where
  "upper_table_3 =
   [(470, [469]), (472, [471]), (474, [473]), (476, [475]), (477, [398]), (479, [478]),
    (481, [480]), (483, [482]), (485, [484]), (487, [486]), (489, [488]), (491, [490]),
    (493, [492]), (495, [494]), (496, [74, 780]), (498, [497]), (499, [497]), (501, [500]),
    (505, [504]), (507, [506]), (509, [508]), (511, [510]), (513, [512]), (515, [514]),
    (517, [516]), (519, [518]), (521, [520]), (523, [522]), (525, [524]), (527, [526]),
    (529, [528]), (531, [530]), (533, [532]), (535, [534]), (537, [536]), (539, [538]),
    (541, [540]), (543, [542]), (547, [546]), (549, [548]), (551, [550]), (553, [552]),
    (555, [554]), (557, [556]), (559, [558]), (561, [560]), (563, [562]), (572, [571]),
    (575, [11390]), (576, [11391]), (578, [577]), (583, [582]), (585, [584]), (587, [586]),
    (589, [588]), (591, [590]), (592, [11375]), (593, [11373]), (594, [11376]), (595, [385]),
    (596, [390]), (598, [393]), (599, [394]), (601, [399])]"

definition upper_table_4 :: "(nat \<times> nat list) list" where
  "upper_table_4 =
   [(603, [400]), (604, [42923]), (608, [403]), (609, [42924]), (611, [404]), (613, [42893]),
    (614, [42922]), (616, [407]), (617, [406]), (618, [42926]), (619, [11362]), (620, [42925]),
    (623, [412]), (625, [11374]), (626, [413]), (629, [415]), (637, [11364]), (640, [422]),
    (642, [42949]), (643, [425]), (647, [42929]), (648, [430]), (649, [580]), (650, [433]),
    (651, [434]), (652, [581]), (658, [439]), (669, [42930]), (670, [42928]), (837, [921]),
    (881, [880]), (883, [882]), (887, [886]), (891, [1021]), (892, [1022]), (893, [1023]),
    (912, [921, 776, 769]), (940, [902]), (941, [904]), (942, [905]), (943, [906]),
    (944, [933, 776, 769]), (945, [913]), (946, [914]), (947, [915]), (948, [916]),
    (949, [917]), (950, [918]), (951, [919]), (952, [920]), (953, [921]), (954, [922]),
    (955, [923]), (956, [924]), (957, [925]), (958, [926]), (959, [927]), (960, [928]),
    (961, [929]), (962, [931]), (963, [931]), (964, [932]), (965, [933]), (966, [934])]"

definition upper_table_5 :: "(nat \<times> nat list) list" where
  "upper_table_5 =
   [(967, [935]), (968, [936]), (969, [937]), (970, [938]), (971, [939]), (972, [908]),
    (973, [910]), (974, [911]), (976, [914]), (977, [920]), (981, [934]), (982, [928]),
    (983, [975]), (985, [984]), (987, [986]), (989, [988]), (991, [990]), (993, [992]),
    (995, [994]), (997, [996]), (999, [998]), (1001, [1000]), (1003, [1002]), (1005, [1004]),
    (1007, [1006]), (1008, [922]), (1009, [929]), (1010, [1017]), (1011, [895]), (1013, [917]),
    (1016, [1015]), (1019, [1018]), (1072, [1040]), (1073, [1041]), (1074, [1042]),
    (1075, [1043]), (1076, [1044]), (1077, [1045]), (1078, [1046]), (1079, [1047]),
    (1080, [1048]), (1081, [1049]), (1082, [1050]), (1083, [1051]), (1084, [1052]),
    (1085, [1053]), (1086, [1054]), (1087, [1055]), (1088, [1056]), (1089, [1057]),
    (1090, [1058]), (1091, [1059]), (1092, [1060]), (1093, [1061]), (1094, [1062]),
    (1095, [1063]), (1096, [1064]), (1097, [1065]), (1098, [1066]), (1099, [1067]),
    (1100, [1068]), (1101, [1069]), (1102, [1070]), (1103, [1071])]"

definition upper_table_6 :: "(nat \<times> nat list) list" where
  "upper_table_6 =
   [(1104, [1024]), (1105, [1025]), (1106, [1026]), (1107, [1027]), (1108, [1028]),
    (1109, [1029]), (1110, [1030]), (1111, [1031]), (1112, [1032]), (1113, [1033]),
    (1114, [1034]), (1115, [1035]), (1116, [1036]), (1117, [1037]), (1118, [1038]),
    (1119, [1039]), (1121, [1120]), (1123, [1122]), (1125, [1124]), (1127, [1126]),
    (1129, [1128]), (1131, [1130]), (1133, [1132]), (1135, [1134]), (1137, [1136]),
    (1139, [1138]), (1141, [1140]), (1143, [1142]), (1145, [1144]), (1147, [1146]),
    (1149, [1148]), (1151, [1150]), (1153, [1152]), (1163, [1162]), (1165, [1164]),
    (1167, [1166]), (1169, [1168]), (1171, [1170]), (1173, [1172]), (1175, [1174]),
    (1177, [1176]), (1179, [1178]), (1181, [1180]), (1183, [1182]), (1185, [1184]),
    (1187, [1186]), (1189, [1188]), (1191, [1190]), (1193, [1192]), (1195, [1194]),
    (1197, [1196]), (1199, [1198]), (1201, [1200]), (1203, [1202]), (1205, [1204]),
    (1207, [1206]), (1209, [1208]), (1211, [1210]), (1213, [1212]), (1215, [1214]),
    (1218, [1217]), (1220, [1219]), (1222, [1221]), (1224, [1223])]"

definition upper_table_7 :: "(nat \<times> nat list) list" where
  "upper_table_7 =
   [(1226, [1225]), (1228, [1227]), (1230, [1229]), (1231, [1216]), (1233, [1232]),
    (1235, [1234]), (1237, [1236]), (1239, [1238]), (1241, [1240]), (1243, [1242]),
    (1245, [1244]), (1247, [1246]), (1249, [1248]), (1251, [1250]), (1253, [1252]),
    (1255, [1254]), (1257, [1256]), (1259, [1258]), (1261, [1260]), (1263, [1262]),
    (1265, [1264]), (1267, [1266]), (1269, [1268]), (1271, [1270]), (1273, [1272]),
    (1275, [1274]), (1277, [1276]), (1279, [1278]), (1281, [1280]), (1283, [1282]),
    (1285, [1284]), (1287, [1286]), (1289, [1288]), (1291, [1290]), (1293, [1292]),
    (1295, [1294]), (1297, [1296]), (1299, [1298]), (1301, [1300]), (1303, [1302]),
    (1305, [1304]), (1307, [1306]), (1309, [1308]), (1311, [1310]), (1313, [1312]),
    (1315, [1314]), (1317, [1316]), (1319, [1318]), (1321, [1320]), (1323, [1322]),
    (1325, [1324]), (1327, [1326]), (1377, [1329]), (1378, [1330]), (1379, [1331]),
    (1380, [1332]), (1381, [1333]), (1382, [1334]), (1383, [1335]), (1384, [1336]),
    (1385, [1337]), (1386, [1338]), (1387, [1339]), (1388, [1340])]"

definition upper_table_8 :: "(nat \<times> nat list) list" where
  "upper_table_8 =
   [(1389, [1341]), (1390, [1342]), (1391, [1343]), (1392, [1344]), (1393, [1345]),
    (1394, [1346]), (1395, [1347]), (1396, [1348]), (1397, [1349]), (1398, [1350]),
    (1399, [1351]), (1400, [1352]), (1401, [1353]), (1402, [1354]), (1403, [1355]),
    (1404, [1356]), (1405, [1357]), (1406, [1358]), (1407, [1359]), (1408, [1360]),
    (1409, [1361]), (1410, [1362]), (1411, [1363]), (1412, [1364]), (1413, [1365]),
    (1414, [1366]), (1415, [1333, 1362]), (4304, [7312]), (4305, [7313]), (4306, [7314]),
    (4307, [7315]), (4308, [7316]), (4309, [7317]), (4310, [7318]), (4311, [7319]),
    (4312, [7320]), (4313, [7321]), (4314, [7322]), (4315, [7323]), (4316, [7324]),
    (4317, [7325]), (4318, [7326]), (4319, [7327]), (4320, [7328]), (4321, [7329]),
    (4322, [7330]), (4323, [7331]), (4324, [7332]), (4325, [7333]), (4326, [7334]),
    (4327, [7335]), (4328, [7336]), (4329, [7337]), (4330, [7338]), (4331, [7339]),
    (4332, [7340]), (4333, [7341]), (4334, [7342]), (4335, [7343]), (4336, [7344]),
    (4337, [7345]), (4338, [7346]), (4339, [7347]), (4340, [7348])]"

definition upper_table_9 :: "(nat \<times> nat list) list" where
  "upper_table_9 =
   [(4341, [7349]), (4342, [7350]), (4343, [7351]), (4344, [7352]), (4345, [7353]),
    (4346, [7354]), (4349, [7357]), (4350, [7358]), (4351, [7359]), (5112, [5104]),
    (5113, [5105]), (5114, [5106]), (5115, [5107]), (5116, [5108]), (5117, [5109]),
    (7296, [1042]), (7297, [1044]), (7298, [1054]), (7299, [1057]), (7300, [1058]),
    (7301, [1058]), (7302, [1066]), (7303, [1122]), (7304, [42570]), (7545, [42877]),
    (7549, [11363]), (7566, [42950]), (7681, [7680]), (7683, [7682]), (7685, [7684]),
    (7687, [7686]), (7689, [7688]), (7691, [7690]), (7693, [7692]), (7695, [7694]),
    (7697, [7696]), (7699, [7698]), (7701, [7700]), (7703, [7702]), (7705, [7704]),
    (7707, [7706]), (7709, [7708]), (7711, [7710]), (7713, [7712]), (7715, [7714]),
    (7717, [7716]), (7719, [7718]), (7721, [7720]), (7723, [7722]), (7725, [7724]),
    (7727, [7726]), (7729, [7728]), (7731, [7730]), (7733, [7732]), (7735, [7734]),
    (7737, [7736]), (7739, [7738]), (7741, [7740]), (7743, [7742]), (7745, [7744]),
    (7747, [7746]), (7749, [7748]), (7751, [7750]), (7753, [7752])]"

definition upper_table_10 :: "(nat \<times> nat list) list" where
  "upper_table_10 =
   [(7755, [7754]), (7757, [7756]), (7759, [7758]), (7761, [7760]), (7763, [7762]),
    (7765, [7764]), (7767, [7766]), (7769, [7768]), (7771, [7770]), (7773, [7772]),
    (7775, [7774]), (7777, [7776]), (7779, [7778]), (7781, [7780]), (7783, [7782]),
    (7785, [7784]), (7787, [7786]), (7789, [7788]), (7791, [7790]), (7793, [7792]),
    (7795, [7794]), (7797, [7796]), (7799, [7798]), (7801, [7800]), (7803, [7802]),
    (7805, [7804]), (7807, [7806]), (7809, [7808]), (7811, [7810]), (7813, [7812]),
    (7815, [7814]), (7817, [7816]), (7819, [7818]), (7821, [7820]), (7823, [7822]),
    (7825, [7824]), (7827, [7826]), (7829, [7828]), (7830, [72, 817]), (7831, [84, 776]),
    (7832, [87, 778]), (7833, [89, 778]), (7834, [65, 702]), (7835, [7776]), (7841, [7840]),
    (7843, [7842]), (7845, [7844]), (7847, [7846]), (7849, [7848]), (7851, [7850]),
    (7853, [7852]), (7855, [7854]), (7857, [7856]), (7859, [7858]), (7861, [7860]),
    (7863, [7862]), (7865, [7864]), (7867, [7866]), (7869, [7868]), (7871, [7870]),
    (7873, [7872]), (7875, [7874]), (7877, [7876]), (7879, [7878])]"

definition upper_table_11 :: "(nat \<times> nat list) list" where
  "upper_table_11 =
   [(7881, [7880]), (7883, [7882]), (7885, [7884]), (7887, [7886]), (7889, [7888]),
    (7891, [7890]), (7893, [7892]), (7895, [7894]), (7897, [7896]), (7899, [7898]),
    (7901, [7900]), (7903, [7902]), (7905, [7904]), (7907, [7906]), (7909, [7908]),
    (7911, [7910]), (7913, [7912]), (7915, [7914]), (7917, [7916]), (7919, [7918]),
    (7921, [7920]), (7923, [7922]), (7925, [7924]), (7927, [7926]), (7929, [7928]),
    (7931, [7930]), (7933, [7932]), (7935, [7934]), (7936, [7944]), (7937, [7945]),
    (7938, [7946]), (7939, [7947]), (7940, [7948]), (7941, [7949]), (7942, [7950]),
    (7943, [7951]), (7952, [7960]), (7953, [7961]), (7954, [7962]), (7955, [7963]),
    (7956, [7964]), (7957, [7965]), (7968, [7976]), (7969, [7977]), (7970, [7978]),
    (7971, [7979]), (7972, [7980]), (7973, [7981]), (7974, [7982]), (7975, [7983]),
    (7984, [7992]), (7985, [7993]), (7986, [7994]), (7987, [7995]), (7988, [7996]),
    (7989, [7997]), (7990, [7998]), (7991, [7999]), (8000, [8008]), (8001, [8009]),
    (8002, [8010]), (8003, [8011]), (8004, [8012]), (8005, [8013])]"

definition upper_table_12 :: "(nat \<times> nat list) list" where
  "upper_table_12 =
   [(8016, [933, 787]), (8017, [8025]), (8018, [933, 787, 768]), (8019, [8027]),
    (8020, [933, 787, 769]), (8021, [8029]), (8022, [933, 787, 834]), (8023, [8031]),
    (8032, [8040]), (8033, [8041]), (8034, [8042]), (8035, [8043]), (8036, [8044]),
    (8037, [8045]), (8038, [8046]), (8039, [8047]), (8048, [8122]), (8049, [8123]),
    (8050, [8136]), (8051, [8137]), (8052, [8138]), (8053, [8139]), (8054, [8154]),
    (8055, [8155]), (8056, [8184]), (8057, [8185]), (8058, [8170]), (8059, [8171]),
    (8060, [8186]), (8061, [8187]), (8064, [7944, 921]), (8065, [7945, 921]),
    (8066, [7946, 921]), (8067, [7947, 921]), (8068, [7948, 921]), (8069, [7949, 921]),
    (8070, [7950, 921]), (8071, [7951, 921]), (8072, [7944, 921]), (8073, [7945, 921]),
    (8074, [7946, 921]), (8075, [7947, 921]), (8076, [7948, 921]), (8077, [7949, 921]),
    (8078, [7950, 921]), (8079, [7951, 921]), (8080, [7976, 921]), (8081, [7977, 921]),
    (8082, [7978, 921]), (8083, [7979, 921]), (8084, [7980, 921]), (8085, [7981, 921]),
    (8086, [7982, 921]), (8087, [7983, 921]), (8088, [7976, 921]), (8089, [7977, 921]),
    (8090, [7978, 921]), (8091, [7979, 921]), (8092, [7980, 921]), (8093, [7981, 921]),
    (8094, [7982, 921]), (8095, [7983, 921]), (8096, [8040, 921]), (8097, [8041, 921])]"

definition upper_table_13 :: "(nat \<times> nat list) list" where
  "upper_table_13 =
   [(8098, [8042, 921]), (8099, [8043, 921]), (8100, [8044, 921]), (8101, [8045, 921]),
    (8102, [8046, 921]), (8103, [8047, 921]), (8104, [8040, 921]), (8105, [8041, 921]),
    (8106, [8042, 921]), (8107, [8043, 921]), (8108, [8044, 921]), (8109, [8045, 921]),
    (8110, [8046, 921]), (8111, [8047, 921]), (8112, [8120]), (8113, [8121]),
    (8114, [8122, 921]), (8115, [913, 921]), (8116, [902, 921]), (8118, [913, 834]),
    (8119, [913, 834, 921]), (8124, [913, 921]), (8126, [921]), (8130, [8138, 921]),
    (8131, [919, 921]), (8132, [905, 921]), (8134, [919, 834]), (8135, [919, 834, 921]),
    (8140, [919, 921]), (8144, [8152]), (8145, [8153]), (8146, [921, 776, 768]),
    (8147, [921, 776, 769]), (8150, [921, 834]), (8151, [921, 776, 834]), (8160, [8168]),
    (8161, [8169]), (8162, [933, 776, 768]), (8163, [933, 776, 769]), (8164, [929, 787]),
    (8165, [8172]), (8166, [933, 834]), (8167, [933, 776, 834]), (8178, [8186, 921]),
    (8179, [937, 921]), (8180, [911, 921]), (8182, [937, 834]), (8183, [937, 834, 921]),
    (8188, [937, 921]), (8526, [8498]), (8560, [8544]), (8561, [8545]), (8562, [8546]),
    (8563, [8547]), (8564, [8548]), (8565, [8549]), (8566, [8550]), (8567, [8551]),
    (8568, [8552]), (8569, [8553]), (8570, [8554]), (8571, [8555]), (8572, [8556]),
    (8573, [8557])]"

definition upper_table_14 :: "(nat \<times> nat list) list" where
  "upper_table_14 =
   [(8574, [8558]), (8575, [8559]), (8580, [8579]), (9424, [9398]), (9425, [9399]),
    (9426, [9400]), (9427, [9401]), (9428, [9402]), (9429, [9403]), (9430, [9404]),
    (9431, [9405]), (9432, [9406]), (9433, [9407]), (9434, [9408]), (9435, [9409]),
    (9436, [9410]), (9437, [9411]), (9438, [9412]), (9439, [9413]), (9440, [9414]),
    (9441, [9415]), (9442, [9416]), (9443, [9417]), (9444, [9418]), (9445, [9419]),
    (9446, [9420]), (9447, [9421]), (9448, [9422]), (9449, [9423]), (11312, [11264]),
    (11313, [11265]), (11314, [11266]), (11315, [11267]), (11316, [11268]), (11317, [11269]),
    (11318, [11270]), (11319, [11271]), (11320, [11272]), (11321, [11273]), (11322, [11274]),
    (11323, [11275]), (11324, [11276]), (11325, [11277]), (11326, [11278]), (11327, [11279]),
    (11328, [11280]), (11329, [11281]), (11330, [11282]), (11331, [11283]), (11332, [11284]),
    (11333, [11285]), (11334, [11286]), (11335, [11287]), (11336, [11288]), (11337, [11289]),
    (11338, [11290]), (11339, [11291]), (11340, [11292]), (11341, [11293]), (11342, [11294]),
    (11343, [11295]), (11344, [11296]), (11345, [11297]), (11346, [11298])]"

definition upper_table_15 :: "(nat \<times> nat list) list" where
  "upper_table_15 =
   [(11347, [11299]), (11348, [11300]), (11349, [11301]), (11350, [11302]), (11351, [11303]),
    (11352, [11304]), (11353, [11305]), (11354, [11306]), (11355, [11307]), (11356, [11308]),
    (11357, [11309]), (11358, [11310]), (11359, [11311]), (11361, [11360]), (11365, [570]),
    (11366, [574]), (11368, [11367]), (11370, [11369]), (11372, [11371]), (11379, [11378]),
    (11382, [11381]), (11393, [11392]), (11395, [11394]), (11397, [11396]), (11399, [11398]),
    (11401, [11400]), (11403, [11402]), (11405, [11404]), (11407, [11406]), (11409, [11408]),
    (11411, [11410]), (11413, [11412]), (11415, [11414]), (11417, [11416]), (11419, [11418]),
    (11421, [11420]), (11423, [11422]), (11425, [11424]), (11427, [11426]), (11429, [11428]),
    (11431, [11430]), (11433, [11432]), (11435, [11434]), (11437, [11436]), (11439, [11438]),
    (11441, [11440]), (11443, [11442]), (11445, [11444]), (11447, [11446]), (11449, [11448]),
    (11451, [11450]), (11453, [11452]), (11455, [11454]), (11457, [11456]), (11459, [11458]),
    (11461, [11460]), (11463, [11462]), (11465, [11464]), (11467, [11466]), (11469, [11468]),
    (11471, [11470]), (11473, [11472]), (11475, [11474]), (11477, [11476])]"

definition upper_table_16 :: "(nat \<times> nat list) list" where
  "upper_table_16 =
   [(11479, [11478]), (11481, [11480]), (11483, [11482]), (11485, [11484]), (11487, [11486]),
    (11489, [11488]), (11491, [11490]), (11500, [11499]), (11502, [11501]), (11507, [11506]),
    (11520, [4256]), (11521, [4257]), (11522, [4258]), (11523, [4259]), (11524, [4260]),
    (11525, [4261]), (11526, [4262]), (11527, [4263]), (11528, [4264]), (11529, [4265]),
    (11530, [4266]), (11531, [4267]), (11532, [4268]), (11533, [4269]), (11534, [4270]),
    (11535, [4271]), (11536, [4272]), (11537, [4273]), (11538, [4274]), (11539, [4275]),
    (11540, [4276]), (11541, [4277]), (11542, [4278]), (11543, [4279]), (11544, [4280]),
    (11545, [4281]), (11546, [4282]), (11547, [4283]), (11548, [4284]), (11549, [4285]),
    (11550, [4286]), (11551, [4287]), (11552, [4288]), (11553, [4289]), (11554, [4290]),
    (11555, [4291]), (11556, [4292]), (11557, [4293]), (11559, [4295]), (11565, [4301]),
    (42561, [42560]), (42563, [42562]), (42565, [42564]), (42567, [42566]), (42569, [42568]),
    (42571, [42570]), (42573, [42572]), (42575, [42574]), (42577, [42576]), (42579, [42578]),
    (42581, [42580]), (42583, [42582]), (42585, [42584]), (42587, [42586])]"

definition upper_table_17 :: "(nat \<times> nat list) list" where
  "upper_table_17 =
   [(42589, [42588]), (42591, [42590]), (42593, [42592]), (42595, [42594]), (42597, [42596]),
    (42599, [42598]), (42601, [42600]), (42603, [42602]), (42605, [42604]), (42625, [42624]),
    (42627, [42626]), (42629, [42628]), (42631, [42630]), (42633, [42632]), (42635, [42634]),
    (42637, [42636]), (42639, [42638]), (42641, [42640]), (42643, [42642]), (42645, [42644]),
    (42647, [42646]), (42649, [42648]), (42651, [42650]), (42787, [42786]), (42789, [42788]),
    (42791, [42790]), (42793, [42792]), (42795, [42794]), (42797, [42796]), (42799, [42798]),
    (42803, [42802]), (42805, [42804]), (42807, [42806]), (42809, [42808]), (42811, [42810]),
    (42813, [42812]), (42815, [42814]), (42817, [42816]), (42819, [42818]), (42821, [42820]),
    (42823, [42822]), (42825, [42824]), (42827, [42826]), (42829, [42828]), (42831, [42830]),
    (42833, [42832]), (42835, [42834]), (42837, [42836]), (42839, [42838]), (42841, [42840]),
    (42843, [42842]), (42845, [42844]), (42847, [42846]), (42849, [42848]), (42851, [42850]),
    (42853, [42852]), (42855, [42854]), (42857, [42856]), (42859, [42858]), (42861, [42860]),
    (42863, [42862]), (42874, [42873]), (42876, [42875]), (42879, [42878])]"

definition upper_table_18 :: "(nat \<times> nat list) list" where
  "upper_table_18 =
   [(42881, [42880]), (42883, [42882]), (42885, [42884]), (42887, [42886]), (42892, [42891]),
    (42897, [42896]), (42899, [42898]), (42900, [42948]), (42903, [42902]), (42905, [42904]),
    (42907, [42906]), (42909, [42908]), (42911, [42910]), (42913, [42912]), (42915, [42914]),
    (42917, [42916]), (42919, [42918]), (42921, [42920]), (42933, [42932]), (42935, [42934]),
    (42937, [42936]), (42939, [42938]), (42941, [42940]), (42943, [42942]), (42945, [42944]),
    (42947, [42946]), (42952, [42951]), (42954, [42953]), (42961, [42960]), (42967, [42966]),
    (42969, [42968]), (42998, [42997]), (43859, [42931]), (43888, [5024]), (43889, [5025]),
    (43890, [5026]), (43891, [5027]), (43892, [5028]), (43893, [5029]), (43894, [5030]),
    (43895, [5031]), (43896, [5032]), (43897, [5033]), (43898, [5034]), (43899, [5035]),
    (43900, [5036]), (43901, [5037]), (43902, [5038]), (43903, [5039]), (43904, [5040]),
    (43905, [5041]), (43906, [5042]), (43907, [5043]), (43908, [5044]), (43909, [5045]),
    (43910, [5046]), (43911, [5047]), (43912, [5048]), (43913, [5049]), (43914, [5050]),
    (43915, [5051]), (43916, [5052]), (43917, [5053]), (43918, [5054])]"

definition upper_table_19 :: "(nat \<times> nat list) list" where
  "upper_table_19 =
   [(43919, [5055]), (43920, [5056]), (43921, [5057]), (43922, [5058]), (43923, [5059]),
    (43924, [5060]), (43925, [5061]), (43926, [5062]), (43927, [5063]), (43928, [5064]),
    (43929, [5065]), (43930, [5066]), (43931, [5067]), (43932, [5068]), (43933, [5069]),
    (43934, [5070]), (43935, [5071]), (43936, [5072]), (43937, [5073]), (43938, [5074]),
    (43939, [5075]), (43940, [5076]), (43941, [5077]), (43942, [5078]), (43943, [5079]),
    (43944, [5080]), (43945, [5081]), (43946, [5082]), (43947, [5083]), (43948, [5084]),
    (43949, [5085]), (43950, [5086]), (43951, [5087]), (43952, [5088]), (43953, [5089]),
    (43954, [5090]), (43955, [5091]), (43956, [5092]), (43957, [5093]), (43958, [5094]),
    (43959, [5095]), (43960, [5096]), (43961, [5097]), (43962, [5098]), (43963, [5099]),
    (43964, [5100]), (43965, [5101]), (43966, [5102]), (43967, [5103]), (64256, [70, 70]),
    (64257, [70, 73]), (64258, [70, 76]), (64259, [70, 70, 73]), (64260, [70, 70, 76]),
    (64261, [83, 84]), (64262, [83, 84]), (64275, [1348, 1350]), (64276, [1348, 1333]),
    (64277, [1348, 1339]), (64278, [1358, 1350]), (64279, [1348, 1341]), (65345, [65313]),
    (65346, [65314]), (65347, [65315])]"

definition upper_table_20 :: "(nat \<times> nat list) list" where
  "upper_table_20 =
   [(65348, [65316]), (65349, [65317]), (65350, [65318]), (65351, [65319]), (65352, [65320]),
    (65353, [65321]), (65354, [65322]), (65355, [65323]), (65356, [65324]), (65357, [65325]),
    (65358, [65326]), (65359, [65327]), (65360, [65328]), (65361, [65329]), (65362, [65330]),
    (65363, [65331]), (65364, [65332]), (65365, [65333]), (65366, [65334]), (65367, [65335]),
    (65368, [65336]), (65369, [65337]), (65370, [65338]), (66600, [66560]), (66601, [66561]),
    (66602, [66562]), (66603, [66563]), (66604, [66564]), (66605, [66565]), (66606, [66566]),
    (66607, [66567]), (66608, [66568]), (66609, [66569]), (66610, [66570]), (66611, [66571]),
    (66612, [66572]), (66613, [66573]), (66614, [66574]), (66615, [66575]), (66616, [66576]),
    (66617, [66577]), (66618, [66578]), (66619, [66579]), (66620, [66580]), (66621, [66581]),
    (66622, [66582]), (66623, [66583]), (66624, [66584]), (66625, [66585]), (66626, [66586]),
    (66627, [66587]), (66628, [66588]), (66629, [66589]), (66630, [66590]), (66631, [66591]),
    (66632, [66592]), (66633, [66593]), (66634, [66594]), (66635, [66595]), (66636, [66596]),
    (66637, [66597]), (66638, [66598]), (66639, [66599]), (66776, [66736])]"

definition upper_table_21 :: "(nat \<times> nat list) list" where
  "upper_table_21 =
   [(66777, [66737]), (66778, [66738]), (66779, [66739]), (66780, [66740]), (66781, [66741]),
    (66782, [66742]), (66783, [66743]), (66784, [66744]), (66785, [66745]), (66786, [66746]),
    (66787, [66747]), (66788, [66748]), (66789, [66749]), (66790, [66750]), (66791, [66751]),
    (66792, [66752]), (66793, [66753]), (66794, [66754]), (66795, [66755]), (66796, [66756]),
    (66797, [66757]), (66798, [66758]), (66799, [66759]), (66800, [66760]), (66801, [66761]),
    (66802, [66762]), (66803, [66763]), (66804, [66764]), (66805, [66765]), (66806, [66766]),
    (66807, [66767]), (66808, [66768]), (66809, [66769]), (66810, [66770]), (66811, [66771]),
    (66967, [66928]), (66968, [66929]), (66969, [66930]), (66970, [66931]), (66971, [66932]),
    (66972, [66933]), (66973, [66934]), (66974, [66935]), (66975, [66936]), (66976, [66937]),
    (66977, [66938]), (66979, [66940]), (66980, [66941]), (66981, [66942]), (66982, [66943]),
    (66983, [66944]), (66984, [66945]), (66985, [66946]), (66986, [66947]), (66987, [66948]),
    (66988, [66949]), (66989, [66950]), (66990, [66951]), (66991, [66952]), (66992, [66953]),
    (66993, [66954]), (66995, [66956]), (66996, [66957]), (66997, [66958])]"

definition upper_table_22 :: "(nat \<times> nat list) list" where
  "upper_table_22 =
   [(66998, [66959]), (66999, [66960]), (67000, [66961]), (67001, [66962]), (67003, [66964]),
    (67004, [66965]), (68800, [68736]), (68801, [68737]), (68802, [68738]), (68803, [68739]),
    (68804, [68740]), (68805, [68741]), (68806, [68742]), (68807, [68743]), (68808, [68744]),
    (68809, [68745]), (68810, [68746]), (68811, [68747]), (68812, [68748]), (68813, [68749]),
    (68814, [68750]), (68815, [68751]), (68816, [68752]), (68817, [68753]), (68818, [68754]),
    (68819, [68755]), (68820, [68756]), (68821, [68757]), (68822, [68758]), (68823, [68759]),
    (68824, [68760]), (68825, [68761]), (68826, [68762]), (68827, [68763]), (68828, [68764]),
    (68829, [68765]), (68830, [68766]), (68831, [68767]), (68832, [68768]), (68833, [68769]),
    (68834, [68770]), (68835, [68771]), (68836, [68772]), (68837, [68773]), (68838, [68774]),
    (68839, [68775]), (68840, [68776]), (68841, [68777]), (68842, [68778]), (68843, [68779]),
    (68844, [68780]), (68845, [68781]), (68846, [68782]), (68847, [68783]), (68848, [68784]),
    (68849, [68785]), (68850, [68786]), (71872, [71840]), (71873, [71841]), (71874, [71842]),
    (71875, [71843]), (71876, [71844]), (71877, [71845]), (71878, [71846])]"

definition upper_table_23 :: "(nat \<times> nat list) list" where
  "upper_table_23 =
   [(71879, [71847]), (71880, [71848]), (71881, [71849]), (71882, [71850]), (71883, [71851]),
    (71884, [71852]), (71885, [71853]), (71886, [71854]), (71887, [71855]), (71888, [71856]),
    (71889, [71857]), (71890, [71858]), (71891, [71859]), (71892, [71860]), (71893, [71861]),
    (71894, [71862]), (71895, [71863]), (71896, [71864]), (71897, [71865]), (71898, [71866]),
    (71899, [71867]), (71900, [71868]), (71901, [71869]), (71902, [71870]), (71903, [71871]),
    (93792, [93760]), (93793, [93761]), (93794, [93762]), (93795, [93763]), (93796, [93764]),
    (93797, [93765]), (93798, [93766]), (93799, [93767]), (93800, [93768]), (93801, [93769]),
    (93802, [93770]), (93803, [93771]), (93804, [93772]), (93805, [93773]), (93806, [93774]),
    (93807, [93775]), (93808, [93776]), (93809, [93777]), (93810, [93778]), (93811, [93779]),
    (93812, [93780]), (93813, [93781]), (93814, [93782]), (93815, [93783]), (93816, [93784]),
    (93817, [93785]), (93818, [93786]), (93819, [93787]), (93820, [93788]), (93821, [93789]),
    (93822, [93790]), (93823, [93791]), (125218, [125184]), (125219, [125185]),
    (125220, [125186]), (125221, [125187]), (125222, [125188]), (125223, [125189]),
    (125224, [125190])]"

definition upper_table_24 :: "(nat \<times> nat list) list" where
  "upper_table_24 =
   [(125225, [125191]), (125226, [125192]), (125227, [125193]), (125228, [125194]),
    (125229, [125195]), (125230, [125196]), (125231, [125197]), (125232, [125198]),
    (125233, [125199]), (125234, [125200]), (125235, [125201]), (125236, [125202]),
    (125237, [125203]), (125238, [125204]), (125239, [125205]), (125240, [125206]),
    (125241, [125207]), (125242, [125208]), (125243, [125209]), (125244, [125210]),
    (125245, [125211]), (125246, [125212]), (125247, [125213]), (125248, [125214]),
    (125249, [125215]), (125250, [125216]), (125251, [125217])]"

definition upper_table :: "(nat \<times> nat list) list list" where
  "upper_table = [upper_table_1, upper_table_2, upper_table_3, upper_table_4, upper_table_5, upper_table_6, upper_table_7, upper_table_8, upper_table_9, upper_table_10, upper_table_11, upper_table_12, upper_table_13, upper_table_14, upper_table_15, upper_table_16, upper_table_17, upper_table_18, upper_table_19, upper_table_20, upper_table_21, upper_table_22, upper_table_23, upper_table_24]"

fun in_ranges :: "(nat \<times> nat) list \<Rightarrow> nat \<Rightarrow> bool" where
  "in_ranges [] c = False"
| "in_ranges (r # rs) c = ((fst r \<le> c \<and> c \<le> snd r) \<or> in_ranges rs c)"

fun table_lookup :: "('k \<times> 'v) list list \<Rightarrow> 'k \<Rightarrow> 'v option" where
  "table_lookup [] k = None"
| "table_lookup (t # ts) k =
     (case map_of t k of None \<Rightarrow> table_lookup ts k | Some v \<Rightarrow> Some v)"

text \<open>\<open>\w\<close>: the alphanumeric code points and the underscore.\<close>

definition is_word :: "nat \<Rightarrow> bool" where
  "is_word c =
     (if c < 128
      then (48 \<le> c \<and> c \<le> 57) \<or> (65 \<le> c \<and> c \<le> 90) \<or> c = 95 \<or> (97 \<le> c \<and> c \<le> 122)
      else list_ex (\<lambda>rs. in_ranges rs c) word_ranges)"

text \<open>\<open>\s\<close>: the code points for which \<open>str.isspace\<close> holds.\<close>

definition is_space :: "nat \<Rightarrow> bool" where
  "is_space c =
     ((9 \<le> c \<and> c \<le> 13) \<or> (28 \<le> c \<and> c \<le> 32) \<or> c = 133 \<or> c = 160 \<or> c = 5760 \<or>
      (8192 \<le> c \<and> c \<le> 8202) \<or> c = 8232 \<or> c = 8233 \<or> c = 8239 \<or> c = 8287 \<or> c = 12288)"

text \<open>\<open>str.upper\<close> on one code point, and on a string.\<close>

definition upper_cp :: "nat \<Rightarrow> str" where
  "upper_cp c =
     (if 97 \<le> c \<and> c \<le> 122 then [c - 32]
      else if c < 128 then [c]
      else (case table_lookup upper_table c of None \<Rightarrow> [c] | Some u \<Rightarrow> u))"

definition str_upper :: "str \<Rightarrow> str" where
  "str_upper s = concat (map upper_cp s)"

text \<open>
  Under \<open>IGNORECASE\<close> a literal that is an ASCII letter matches the code points that
  \<open>re_fold\<close> sends to the same number as the literal: the letter in both cases, and
  besides the Kelvin sign (8490) for \<open>K\<close>, the dotted capital I (304) and the dotless
  small i (305) for \<open>I\<close>, and the long s (383) for \<open>S\<close>. The only pattern compiled with
  \<open>IGNORECASE\<close> is \<open>TABLE_RE\<close>, whose literals are ASCII letters.
\<close>

definition re_fold :: "nat \<Rightarrow> nat" where
  "re_fold c =
     (if 65 \<le> c \<and> c \<le> 90 then c + 32
      else if c = 8490 then 107
      else if c = 304 \<or> c = 305 then 105
      else if c = 383 then 115
      else c)"

text \<open>\<open>txt.find(c, lo)\<close> and \<open>txt.rfind(c, lo, hi)\<close> for a single character; \<open>-1\<close> when absent.\<close>

definition str_find :: "nat \<Rightarrow> str \<Rightarrow> nat \<Rightarrow> int" where
  "str_find c txt lo =
     (case filter (\<lambda>i. txt ! i = c) [lo..<length txt] of [] \<Rightarrow> -1 | i # _ \<Rightarrow> int i)"

definition str_rfind :: "nat \<Rightarrow> str \<Rightarrow> nat \<Rightarrow> nat \<Rightarrow> int" where
  "str_rfind c txt lo hi =
     (case rev (filter (\<lambda>i. txt ! i = c) [lo..<min hi (length txt)]) of
        [] \<Rightarrow> -1 | i # _ \<Rightarrow> int i)"

section \<open>Regular expressions\<close>

text \<open>
  The fragment of \<open>re\<close> that the patterns of the program use: literals, \<open>\s\<close>, the
  greedy \<open>*\<close> and \<open>+\<close> on a single-character atom, \<open>\b\<close>, sequence and alternation.
  \<open>rmatch ic r t p\<close> lists the end offsets of the matches of \<open>r\<close> in \<open>t\<close> that start at
  \<open>p\<close>, in the order in which the backtracking matcher finds them; the head is the match
  that \<open>re\<close> reports. \<open>ic\<close> is the \<open>IGNORECASE\<close> flag.
\<close>

datatype atom = Chr nat | SpaceCls

datatype regex =
    Eps
  | One atom
  | StarG atom
  | PlusG atom
  | WordB
  | Seq regex regex
  | Alt regex regex

fun atom_ok :: "bool \<Rightarrow> atom \<Rightarrow> nat \<Rightarrow> bool" where
  "atom_ok ic (Chr a) c = (if ic then re_fold c = re_fold a else c = a)"
| "atom_ok ic SpaceCls c = is_space c"

definition word_boundary :: "str \<Rightarrow> nat \<Rightarrow> bool" where
  "word_boundary t p =
     ((0 < p \<and> p \<le> length t \<and> is_word (t ! (p - 1))) \<noteq> (p < length t \<and> is_word (t ! p)))"

fun rmatch :: "bool \<Rightarrow> regex \<Rightarrow> str \<Rightarrow> nat \<Rightarrow> nat list" where
  "rmatch ic Eps t p = [p]"
| "rmatch ic (One a) t p = (if p < length t \<and> atom_ok ic a (t ! p) then [p + 1] else [])"
| "rmatch ic (StarG a) t p =
     (let k = length (takeWhile (atom_ok ic a) (drop p t))
      in map (\<lambda>j. p + j) (rev [0..<k + 1]))"
| "rmatch ic (PlusG a) t p =
     (let k = length (takeWhile (atom_ok ic a) (drop p t))
      in map (\<lambda>j. p + j) (rev [1..<k + 1]))"
| "rmatch ic WordB t p = (if word_boundary t p then [p] else [])"
| "rmatch ic (Seq r1 r2) t p = concat (map (rmatch ic r2 t) (rmatch ic r1 t p))"
| "rmatch ic (Alt r1 r2) t p = rmatch ic r1 t p @ rmatch ic r2 t p"

text \<open>A string of letters and digits as a pattern, and \<open>'|'.join\<close> of patterns.\<close>

fun lit :: "str \<Rightarrow> regex" where
  "lit [] = Eps"
| "lit (c # cs) = Seq (One (Chr c)) (lit cs)"

fun alts :: "regex list \<Rightarrow> regex" where
  "alts [] = Eps"
| "alts [r] = r"
| "alts (r # rs) = Alt r (alts rs)"

text \<open>\<open>re.match(pattern, s)\<close> as a truth value: is there a match at offset 0.\<close>

definition re_match :: "regex \<Rightarrow> str \<Rightarrow> bool" where
  "re_match r s = (rmatch False r s 0 \<noteq> [])"

text \<open>
  \<open>finditer\<close>: the spans of the non-overlapping matches, scanning from the left; after
  a match the scan resumes at its end (one further when the match is empty).
\<close>

function finditer_from :: "bool \<Rightarrow> regex \<Rightarrow> str \<Rightarrow> nat \<Rightarrow> (nat \<times> nat) list" where
  "finditer_from ic r t p =
     (if length t < p then []
      else case rmatch ic r t p of
             [] \<Rightarrow> finditer_from ic r t (p + 1)
           | e # _ \<Rightarrow> (p, e) # finditer_from ic r t (if p < e then e else p + 1))"
  by pat_completeness auto
termination
  by (relation "measure (\<lambda>(ic, r, t, p). Suc (length t) - p)") auto

declare finditer_from.simps [simp del]

definition finditer :: "bool \<Rightarrow> regex \<Rightarrow> str \<Rightarrow> (nat \<times> nat) list" where
  "finditer ic r t = finditer_from ic r t 0"

section \<open>Reference mappings\<close>

text \<open>
  A Python dictionary with string keys is an association list in insertion order. The
  keys \<open>new\<close> and \<open>note\<close> of the inner dictionaries are literals of the program; the
  names, the replacements and the notes are strings of code points (the arrow in two
  notes is the code point 8594).
\<close>

type_synonym info = "(string \<times> str) list"

definition entry :: "string \<Rightarrow> string \<Rightarrow> string \<Rightarrow> str \<times> info" where
  "entry k n t = (cps k, [(''new'', cps n), (''note'', cps t)])"

definition CORE_DOC_MAP :: "(str \<times> info) list" where
  "CORE_DOC_MAP =
   [entry ''MKPF'' ''MATDOC''
      ''Header data no longer stored separately. Still exists as DDIC object, but only read via CDS view NSDM_DDL_MKPF.'',
    entry ''MSEG'' ''MATDOC'' ''Item + header + attributes merged. Proxy CDS: NSDM_DDL_MSEG.'']"

definition HYBRID_MAP :: "(str \<times> info) list" where
  "HYBRID_MAP =
   [entry ''MARC'' ''NSDM_V_MARC'' ''Plant Data for Material now redirected to CDS views.'',
    entry ''MARD'' ''NSDM_V_MARD'' ''Storage location data no longer persisted.'',
    entry ''MCHB'' ''NSDM_V_MCHB'' ''Batch stock quantities derived from MATDOC.'',
    entry ''MKOL'' ''NSDM_V_MKOL'' ''Special stocks from vendor redirected.'',
    entry ''MSLB'' ''NSDM_V_MSLB'' ''Special stocks with vendor derived from MATDOC.'',
    entry ''MSKA'' ''NSDM_V_MSKA'' ''Sales order stock redirected.'',
    entry ''MSPR'' ''NSDM_V_MSPR'' ''Project stock aggregated on the fly.'',
    entry ''MSKU'' ''NSDM_V_MSKU'' ''Special stocks with customer from MATDOC.'']"

definition AGGR_MAP :: "(str \<times> info) list" where
  "AGGR_MAP =
   [entry ''MSSA'' ''NSDM_V_MSSA'' ''Customer order totals replaced by CDS view.'',
    entry ''MSSL'' ''NSDM_V_MSSL'' ''Special stocks with vendor totals replaced by CDS view.'',
    entry ''MSSQ'' ''NSDM_V_MSSQ'' ''Project stock totals replaced by CDS view.'',
    entry ''MSTB'' ''NSDM_V_MSTB'' ''Stock in transit replaced by CDS view.'',
    entry ''MSTE'' ''NSDM_V_MSTE'' ''Stock in transit (SD Doc) replaced by CDS view.'',
    entry ''MSTQ'' ''NSDM_V_MSTQ'' ''Stock in transit for project replaced by CDS view.'']"

definition DIMP_MAP :: "(str \<times> info) list" where
  "DIMP_MAP =
   [(cps ''MCSD'',
     [(''new'', cps ''NSDM_V_MCSD''),
      (''note'', cps ''Customer Stock split: stock '' @ [8594] @ cps '' MATDOC, master '' @
                 [8594] @ cps '' MCSD_MD.'')]),
    (cps ''MCSS'',
     [(''new'', cps ''NSDM_V_MCSS''),
      (''note'', cps ''Customer Stock Total split: stock '' @ [8594] @ cps '' MATDOC, master '' @
                 [8594] @ cps '' MCSS_MD.'')]),
    entry ''MSCD'' ''NSDM_V_MSCD'' ''Customer Stock with Vendor split into MATDOC + MSCD_MD.'',
    entry ''MSCS'' ''NSDM_V_MSCS'' ''Cust. Stock with Vendor Total split into MATDOC + MSCS_MD.'',
    entry ''MSFD'' ''NSDM_V_MSFD'' ''Sales Order Stock with Vendor split into MATDOC + MSFD_MD.'',
    entry ''MSFS'' ''NSDM_V_MSFS'' ''Sales Order Stock with Vendor Total split into MATDOC + MSFS_MD.'',
    entry ''MSID'' ''NSDM_V_MSID'' ''Vendor Stock split into MATDOC + MSID_MD.'',
    entry ''MSIS'' ''NSDM_V_MSIS'' ''Vendor Stock Total split into MATDOC + MSIS_MD.'',
    entry ''MSRD'' ''NSDM_V_MSRD'' ''Project Stock with Vendor split into MATDOC + MSRD_MD.'',
    entry ''MSRS'' ''NSDM_V_MSRS'' ''Project Stock with Vendor Total split into MATDOC + MSRS_MD.'']"

definition HISTORY_MAP :: "(str \<times> info) list" where
  "HISTORY_MAP =
   [entry ''MARCH'' ''NSDM_V_MARCH'' ''MARC History redirected to CDS.'',
    entry ''MARDH'' ''NSDM_V_MARDH'' ''MARD History redirected to CDS.'',
    entry ''MCHBH'' ''NSDM_V_MCHBH'' ''MCHB History redirected to CDS.'',
    entry ''MKOLH'' ''NSDM_V_MKOLH'' ''MKOL History redirected to CDS.'',
    entry ''MSLBH'' ''NSDM_V_MSLBH'' ''MSLB History redirected to CDS.'',
    entry ''MSKAH'' ''NSDM_V_MSKAH'' ''MSKA History redirected to CDS.'',
    entry ''MSSAH'' ''NSDM_V_MSSAH'' ''MSSA History redirected to CDS.'',
    entry ''MSPRH'' ''NSDM_V_MSPRH'' ''MSPR History redirected to CDS.'',
    entry ''MSSQH'' ''NSDM_V_MSSQH'' ''MSSQ History redirected to CDS.'',
    entry ''MSKUH'' ''NSDM_V_MSKUH'' ''MSKU History redirected to CDS.'',
    entry ''MSTBH'' ''NSDM_V_MSTBH'' ''MSTB History redirected to CDS.'',
    entry ''MSTEH'' ''NSDM_V_MSTEH'' ''MSTE History redirected to CDS.'',
    entry ''MSTQH'' ''NSDM_V_MSTQH'' ''MSTQ History redirected to CDS.'',
    entry ''MCSDH'' ''NSDM_V_MCSDH'' ''MCSD History redirected to CDS.'',
    entry ''MCSSH'' ''NSDM_V_MCSSH'' ''MCSS History redirected to CDS.'',
    entry ''MSCDH'' ''NSDM_V_MSCDH'' ''MSCD History redirected to CDS.'',
    entry ''MSFDH'' ''NSDM_V_MSFDH'' ''MSFD History redirected to CDS.'',
    entry ''MSIDH'' ''NSDM_V_MSIDH'' ''MSID History redirected to CDS.'',
    entry ''MSRDH'' ''NSDM_V_MSRDH'' ''MSRD History redirected to CDS.'']"

text \<open>
  \<open>{**a, **b}\<close>: the entries of \<open>a\<close>, then each entry of \<open>b\<close> in turn, replacing the value
  of a key already present and appended otherwise.
\<close>

definition dict_merge :: "('k \<times> 'v) list \<Rightarrow> ('k \<times> 'v) list \<Rightarrow> ('k \<times> 'v) list" where
  "dict_merge a b = fold (\<lambda>(k, v). AList.update k v) b a"

definition TABLE_MAP :: "(str \<times> info) list" where
  "TABLE_MAP =
     dict_merge (dict_merge (dict_merge (dict_merge CORE_DOC_MAP HYBRID_MAP) AGGR_MAP) DIMP_MAP)
       HISTORY_MAP"

text \<open>
  \<open>sorted(keys, key=len, reverse=True)\<close>: a stable sort by decreasing length, which
  keeps keys of equal length in the order of the dictionary.
\<close>

definition TABLE_NAMES :: "str list" where
  "TABLE_NAMES = sort_key (\<lambda>k. - int (length k)) (map fst TABLE_MAP)"

text \<open>
  \<open>TABLE_RE\<close>: under \<open>VERBOSE\<close> the white space of the pattern is dropped, which leaves
  \<open>\b(?P<name>N1|N2|...)\b\<close>, compiled with \<open>IGNORECASE\<close>. The group \<open>name\<close> spans
  the whole match, the two \<open>\b\<close> being of width zero.
\<close>

definition TABLE_RE :: regex where
  "TABLE_RE = Seq WordB (Seq (alts (map lit TABLE_NAMES)) WordB)"

definition table_matches :: "str \<Rightarrow> (nat \<times> nat) list" where
  "table_matches txt = finditer True TABLE_RE txt"

section \<open>Helpers\<close>

record issue =
  table :: str
  target_type :: str
  target_name :: str
  used_fields :: "str list"
  ambiguous :: bool
  suggested_statement :: str
  suggested_fields :: "str list option"
  snippet :: str
  note_opt :: "str option"

text \<open>\<open>max(0, start - 60)\<close> is the truncating subtraction of \<open>nat\<close>.\<close>

definition snippet_at :: "str \<Rightarrow> nat \<Rightarrow> nat \<Rightarrow> str" where
  "snippet_at text start end =
     (let s = start - 60; e = min (length text) (end + 60) in slice text s e)"

text \<open>
  \<open>_add_hit\<close> appends to \<open>hits\<close>; the key \<open>note\<close> is set only when the note is
  neither \<open>None\<close> nor empty.
\<close>

definition add_hit ::
  "issue list \<Rightarrow> nat \<times> nat \<Rightarrow> str \<Rightarrow> str \<Rightarrow> str \<Rightarrow> str option \<Rightarrow> issue list" where
  "add_hit hits span tgt stmt src nt =
     (let start = fst span; end = snd span;
          meta = \<lparr> table = tgt, target_type = cps ''Table'', target_name = tgt,
                   used_fields = [], ambiguous = False, suggested_statement = stmt,
                   suggested_fields = None, snippet = snippet_at src start end,
                   note_opt = (case nt of None \<Rightarrow> None
                               | Some n \<Rightarrow> if n = [] then None else Some n) \<rparr>
      in hits @ [meta])"

section \<open>The date of the run\<close>

text \<open>
  \<open>datetime.today()\<close> reads the clock: the date is an input of the model.
  \<open>strftime("%Y-%m-%d")\<close> writes the year in decimal (the C library does not pad it) and
  the month and the day on two digits.
\<close>

record date =
  year :: nat
  month :: nat
  day :: nat

definition digit_char :: "nat \<Rightarrow> nat" where
  "digit_char n = 48 + n"

fun dec :: "nat \<Rightarrow> str" where
  "dec n = (if n < 10 then [digit_char n] else dec (n div 10) @ [digit_char (n mod 10)])"

declare dec.simps [simp del]

definition pad2 :: "nat \<Rightarrow> str" where
  "pad2 n = (if n < 10 then 48 # dec n else dec n)"

definition strftime_ymd :: "date \<Rightarrow> str" where
  "strftime_ymd d = dec (year d) @ cps ''-'' @ pad2 (month d) @ cps ''-'' @ pad2 (day d)"

section \<open>Remediation\<close>

datatype py_error = KeyError string

text \<open>The two patterns of the protection test, built from the upper-cased name.\<close>

definition update_modify_re :: "str \<Rightarrow> regex" where
  "update_modify_re name =
     Seq (StarG SpaceCls) (Seq (Alt (lit (cps ''UPDATE'')) (lit (cps ''MODIFY'')))
       (Seq (PlusG SpaceCls) (Seq (lit name) WordB)))"

definition delete_from_re :: "str \<Rightarrow> regex" where
  "delete_from_re name =
     Seq (StarG SpaceCls) (Seq (lit (cps ''DELETE'')) (Seq (PlusG SpaceCls)
       (Seq (lit (cps ''FROM'')) (Seq (PlusG SpaceCls) (Seq (lit name) WordB)))))"

text \<open>The upper-cased line that encloses the span \<open>m\<close>.\<close>

definition enclosing_line :: "str \<Rightarrow> nat \<times> nat \<Rightarrow> str" where
  "enclosing_line txt m =
     (let line_start = nat (str_rfind nl txt 0 (fst m) + 1);
          line_end0 = str_find nl txt (snd m);
          line_end = (if line_end0 = - 1 then int (length txt) else line_end0)
      in str_upper (slice txt line_start (nat line_end)))"

definition protected :: "str \<Rightarrow> str \<Rightarrow> bool" where
  "protected name line =
     (re_match (update_modify_re name) line \<or> re_match (delete_from_re name) line)"

definition change_marker :: "date \<Rightarrow> str" where
  "change_marker today = [nl] @ cps ''\" Changed by PwC on '' @ strftime_ymd today @ [nl]"

text \<open>
  One iteration of the loop over the matches, on the state
  \<open>(last_idx, remediated_parts, issues)\<close>. \<open>if not info: continue\<close> leaves the state as
  it is when the upper-cased match is no key (or its dictionary is empty);
  \<open>info["new"]\<close> raises \<open>KeyError\<close> when the key is missing.
\<close>

type_synonym loop_state = "nat \<times> str list \<times> issue list"

definition loop_body :: "str \<Rightarrow> str \<Rightarrow> loop_state \<Rightarrow> nat \<times> nat \<Rightarrow> py_error + loop_state" where
  "loop_body txt marker st m =
     (let last_idx = fst st; parts = fst (snd st); issues = snd (snd st);
          name = str_upper (slice txt (fst m) (snd m))
      in case map_of TABLE_MAP name of
           None \<Rightarrow> Inr st
         | Some info \<Rightarrow>
             if info = [] then Inr st
             else if protected name (enclosing_line txt m)
             then Inr (snd m, parts @ [slice txt last_idx (snd m)], issues)
             else (case map_of info ''new'' of
                     None \<Rightarrow> Inl (KeyError ''new'')
                   | Some replacement \<Rightarrow>
                       Inr (snd m,
                            parts @ [slice txt last_idx (fst m), replacement, marker],
                            add_hit issues m name
                              (cps ''Replaced '' @ name @ cps '' with '' @ replacement @ cps ''.'')
                              txt (map_of info ''note''))))"

fun run_loop :: "str \<Rightarrow> str \<Rightarrow> loop_state \<Rightarrow> (nat \<times> nat) list \<Rightarrow> py_error + loop_state" where
  "run_loop txt marker st [] = Inr st"
| "run_loop txt marker st (m # ms) =
     (case loop_body txt marker st m of
        Inl e \<Rightarrow> Inl e
      | Inr st' \<Rightarrow> run_loop txt marker st' ms)"

definition remediate_code :: "date \<Rightarrow> str \<Rightarrow> py_error + (str \<times> issue list)" where
  "remediate_code today txt =
     (if txt = [] then Inr (txt, [])
      else
        let matches = sort_key fst (table_matches txt)
        in case run_loop txt (change_marker today) (0, [], []) matches of
             Inl e \<Rightarrow> Inl e
           | Inr st \<Rightarrow>
               Inr (concat (fst (snd st) @ [drop (fst st) txt]), snd (snd st)))"

section \<open>The matcher, read as a scanner of words\<close>

text \<open>
  What the matcher computes is stated a second time, without regular expressions: a
  walk over the text that collects each maximal run of word characters and keeps the
  runs that equal a name of the vocabulary up to case. The theorems relate it to
  \<open>table_matches\<close>.
\<close>

definition is_upper_letter :: "nat \<Rightarrow> bool" where
  "is_upper_letter c = (65 \<le> c \<and> c \<le> 90)"

definition ci_eq :: "str \<Rightarrow> str \<Rightarrow> bool" where
  "ci_eq n w = list_all2 (\<lambda>a c. re_fold c = re_fold a) n w"

definition vocab :: "str \<Rightarrow> bool" where
  "vocab w = (\<exists>n \<in> set TABLE_NAMES. ci_eq n w)"

fun lit_ok :: "bool \<Rightarrow> str \<Rightarrow> str \<Rightarrow> bool" where
  "lit_ok ic [] u = True"
| "lit_ok ic (a # s) [] = False"
| "lit_ok ic (a # s) (c # u) = (atom_ok ic (Chr a) c \<and> lit_ok ic s u)"

definition word_start :: "str \<Rightarrow> nat \<Rightarrow> bool" where
  "word_start t p = (p < length t \<and> is_word (t ! p) \<and> (p = 0 \<or> \<not> is_word (t ! (p - 1))))"

definition match_end :: "str \<Rightarrow> nat \<Rightarrow> nat option" where
  "match_end t p =
     (if word_start t p
      then (let w = takeWhile is_word (drop p t)
            in if vocab w then Some (p + length w) else None)
      else None)"

text \<open>
  \<open>scan p cur cs\<close>: \<open>cs\<close> is the text from offset \<open>p\<close> on and \<open>cur\<close> the word characters
  read since the last character that is not one.
\<close>

definition flush :: "nat \<Rightarrow> str \<Rightarrow> (nat \<times> nat) list" where
  "flush p cur = (if vocab cur then [(p - length cur, p)] else [])"

fun scan :: "nat \<Rightarrow> str \<Rightarrow> str \<Rightarrow> (nat \<times> nat) list" where
  "scan p cur [] = flush p cur"
| "scan p cur (c # cs) =
     (if is_word c then scan (p + 1) (cur @ [c]) cs
      else flush p cur @ scan (p + 1) [] cs)"

text \<open>The shape of the names and of the entries of the reference mappings.\<close>

definition valid_name :: "str \<Rightarrow> bool" where
  "valid_name n = (n \<noteq> [] \<and> (\<forall>c \<in> set n. is_upper_letter c))"

definition good_entry :: "str \<times> info \<Rightarrow> bool" where
  "good_entry e =
     (valid_name (fst e) \<and>
      (\<exists>t. snd e = [(''new'', if fst e = cps ''MKPF'' \<or> fst e = cps ''MSEG'' then cps ''MATDOC''
                                else cps ''NSDM_V_'' @ fst e),
                      (''note'', t)] \<and> t \<noteq> []))"

section \<open>The rewrite, read from the specification\<close>

text \<open>
  The engine as the specification describes it, for a given list of matches: the text
  between the matches is copied, each match is replaced by what \<open>f\<close> gives for it, and
  the rest of the text follows. A match has an entry when its upper-cased text is a key
  of the reference mapping; it is protected when it has an entry and the protection
  test holds of its line, rewritable when it has an entry and the test fails, and it is
  skipped when it has no entry. The theorems relate this to the loop of
  \<open>remediate_code\<close>.
\<close>

definition occurrence :: "str \<Rightarrow> nat \<Rightarrow> nat \<Rightarrow> bool" where
  "occurrence t s e =
     (s < e \<and> e \<le> length t \<and> (s = 0 \<or> \<not> is_word (t ! (s - 1))) \<and>
      (e = length t \<or> \<not> is_word (t ! e)) \<and> vocab (slice t s e))"

definition match_name :: "str \<Rightarrow> nat \<times> nat \<Rightarrow> str" where
  "match_name txt m = str_upper (slice txt (fst m) (snd m))"

definition has_entry :: "str \<Rightarrow> nat \<times> nat \<Rightarrow> bool" where
  "has_entry txt m = (match_name txt m \<in> fst ` set TABLE_MAP)"

definition is_protected :: "str \<Rightarrow> nat \<times> nat \<Rightarrow> bool" where
  "is_protected txt m =
     (has_entry txt m \<and> protected (match_name txt m) (enclosing_line txt m))"

definition is_rewritable :: "str \<Rightarrow> nat \<times> nat \<Rightarrow> bool" where
  "is_rewritable txt m =
     (has_entry txt m \<and> \<not> protected (match_name txt m) (enclosing_line txt m))"

definition rewritable :: "str \<Rightarrow> (nat \<times> nat) list" where
  "rewritable txt = filter (is_rewritable txt) (table_matches txt)"

definition replacement_of :: "str \<Rightarrow> str" where
  "replacement_of name =
     (case map_of TABLE_MAP name of
        None \<Rightarrow> []
      | Some info \<Rightarrow> (case map_of info ''new'' of None \<Rightarrow> [] | Some r \<Rightarrow> r))"

definition note_of :: "str \<Rightarrow> str option" where
  "note_of name =
     (case map_of TABLE_MAP name of
        None \<Rightarrow> None
      | Some info \<Rightarrow> (case map_of info ''note'' of
                       None \<Rightarrow> None
                     | Some n \<Rightarrow> if n = [] then None else Some n))"

definition issue_of :: "str \<Rightarrow> nat \<times> nat \<Rightarrow> issue" where
  "issue_of txt m =
     (let name = match_name txt m
      in \<lparr> table = name, target_type = cps ''Table'', target_name = name,
           used_fields = [], ambiguous = False,
           suggested_statement =
             cps ''Replaced '' @ name @ cps '' with '' @ replacement_of name @ cps ''.'',
           suggested_fields = None, snippet = snippet_at txt (fst m) (snd m),
           note_opt = note_of name \<rparr>)"

definition substitute :: "date \<Rightarrow> str \<Rightarrow> nat \<times> nat \<Rightarrow> str" where
  "substitute today txt m =
     (if is_rewritable txt m then replacement_of (match_name txt m) @ change_marker today
      else slice txt (fst m) (snd m))"

fun render :: "str \<Rightarrow> (nat \<times> nat \<Rightarrow> str) \<Rightarrow> nat \<Rightarrow> (nat \<times> nat) list \<Rightarrow> str" where
  "render txt f last_idx [] = drop last_idx txt"
| "render txt f last_idx (m # ms) =
     slice txt last_idx (fst m) @ f m @ render txt f (snd m) ms"

text \<open>The two components of a result; an error has neither text nor issues.\<close>

definition result_text :: "py_error + str \<times> issue list \<Rightarrow> str" where
  "result_text r = (case r of Inl e \<Rightarrow> [] | Inr x \<Rightarrow> fst x)"

definition result_issues :: "py_error + str \<times> issue list \<Rightarrow> issue list" where
  "result_issues r = (case r of Inl e \<Rightarrow> [] | Inr x \<Rightarrow> snd x)"



text \<open>
  A text in which the Kelvin sign (the code point 8490) stands for the letter \<open>K\<close> of
  \<open>MKPF\<close>.
\<close>

definition kelvin_text :: str where
  "kelvin_text = cps ''SELECT * FROM M'' @ [8490] @ cps ''PF.''"

section \<open>Characters and patterns\<close>

lemmas word_ranges_defs = word_ranges_def word_ranges_1_def word_ranges_2_def word_ranges_3_def word_ranges_4_def word_ranges_5_def word_ranges_6_def word_ranges_7_def word_ranges_8_def word_ranges_9_def word_ranges_10_def word_ranges_11_def word_ranges_12_def

lemmas upper_table_defs = upper_table_def upper_table_1_def upper_table_2_def upper_table_3_def upper_table_4_def upper_table_5_def upper_table_6_def upper_table_7_def upper_table_8_def upper_table_9_def upper_table_10_def upper_table_11_def upper_table_12_def upper_table_13_def upper_table_14_def upper_table_15_def upper_table_16_def upper_table_17_def upper_table_18_def upper_table_19_def upper_table_20_def upper_table_21_def upper_table_22_def upper_table_23_def upper_table_24_def

lemma cps_Nil [simp]: "cps [] = []"
  by (simp add: cps_def)

lemma cps_Cons: "cps (c # s) = of_char c # cps s"
  by (simp add: cps_def)


lemma length_cps [simp]: "length (cps s) = length s"
  by (simp add: cps_def)

lemma is_word_specials: "is_word 304" "is_word 305" "is_word 383" "is_word 8490"
  by (simp_all add: is_word_def word_ranges_defs)

lemma is_word_ascii:
  "c < 128 \<Longrightarrow> is_word c = ((48 \<le> c \<and> c \<le> 57) \<or> (65 \<le> c \<and> c \<le> 90) \<or> c = 95 \<or> (97 \<le> c \<and> c \<le> 122))"
  by (simp add: is_word_def)

lemma re_fold_upper: "is_upper_letter a \<Longrightarrow> re_fold a = a + 32"
  by (simp add: re_fold_def is_upper_letter_def)

lemma ci_letter:
  assumes "is_upper_letter a" and "re_fold c = re_fold a"
  shows "c = a \<or> c = a + 32 \<or> c = 304 \<or> c = 305 \<or> c = 383 \<or> c = 8490"
proof -
  from assms(1) have a: "65 \<le> a" "a \<le> 90" by (simp_all add: is_upper_letter_def)
  from assms have e: "re_fold c = a + 32" by (simp add: re_fold_upper)
  show ?thesis
  proof (cases "65 \<le> c \<and> c \<le> 90")
    case True
    then have "re_fold c = c + 32" by (simp add: re_fold_def)
    with e show ?thesis by simp
  next
    case False
    show ?thesis
    proof (cases "c = 304 \<or> c = 305 \<or> c = 383 \<or> c = 8490")
      case True
      then show ?thesis by blast
    next
      case False
      with \<open>\<not> (65 \<le> c \<and> c \<le> 90)\<close> have "re_fold c = c" by (simp add: re_fold_def)
      with e show ?thesis by simp
    qed
  qed
qed

lemma ci_letter_word: "is_upper_letter a \<Longrightarrow> re_fold c = re_fold a \<Longrightarrow> is_word c"
proof -
  assume a: "is_upper_letter a" and e: "re_fold c = re_fold a"
  from a have r: "65 \<le> a" "a \<le> 90" by (simp_all add: is_upper_letter_def)
  from ci_letter [OF a e]
  consider "c = a \<or> c = a + 32" | "c = 304" | "c = 305" | "c = 383" | "c = 8490" by blast
  then show "is_word c"
  proof cases
    case 1
    with r have "c < 128" "(65 \<le> c \<and> c \<le> 90) \<or> (97 \<le> c \<and> c \<le> 122)" by arith+
    then show ?thesis using is_word_ascii [of c] by blast
  qed (simp_all add: is_word_specials)
qed

lemma upper_letter_word: "is_upper_letter a \<Longrightarrow> is_word a"
  by (rule ci_letter_word [OF _ refl])

lemma rmatch_lit: "rmatch ic (lit s) t p = (if lit_ok ic s (drop p t) then [p + length s] else [])"
proof (induction s arbitrary: p)
  case Nil
  then show ?case by simp
next
  case (Cons a s)
  show ?case
  proof (cases "p < length t")
    case True
    then have d: "drop p t = t ! p # drop (Suc p) t" by (simp add: Cons_nth_drop_Suc)
    show ?thesis using True Cons.IH [of "Suc p"] by (cases ic) (simp_all add: d)
  next
    case False
    then show ?thesis by simp
  qed
qed

lemma rmatch_alts: "rs \<noteq> [] \<Longrightarrow> rmatch ic (alts rs) t p = concat (map (\<lambda>r. rmatch ic r t p) rs)"
  by (induction rs rule: alts.induct) simp_all

section \<open>The reference vocabulary\<close>

section \<open>The reference vocabulary\<close>

lemma set_update_subset: "set (AList.update k v al) \<subseteq> insert (k, v) (set al)"
  by (induction al) auto

lemma set_fold_update_subset:
  "set (fold (\<lambda>(k, v). AList.update k v) b a) \<subseteq> set a \<union> set b"
proof (induction b arbitrary: a)
  case Nil
  then show ?case by simp
next
  case (Cons x b)
  obtain k v where x: "x = (k, v)" by (cases x)
  have "set (fold (\<lambda>(k, v). AList.update k v) b (AList.update k v a))
          \<subseteq> set (AList.update k v a) \<union> set b" by (rule Cons.IH)
  also have "\<dots> \<subseteq> insert (k, v) (set a) \<union> set b"
    using set_update_subset [of k v a] by blast
  finally show ?case by (auto simp: x)
qed

lemma set_dict_merge_subset: "set (dict_merge a b) \<subseteq> set a \<union> set b"
  unfolding dict_merge_def by (rule set_fold_update_subset)

lemma good_CORE: "\<forall>e \<in> set CORE_DOC_MAP. good_entry e"
  by (simp add: CORE_DOC_MAP_def entry_def good_entry_def valid_name_def is_upper_letter_def cps_def)

lemma good_HYBRID: "\<forall>e \<in> set HYBRID_MAP. good_entry e"
  by (simp add: HYBRID_MAP_def entry_def good_entry_def valid_name_def is_upper_letter_def cps_def)

lemma good_AGGR: "\<forall>e \<in> set AGGR_MAP. good_entry e"
  by (simp add: AGGR_MAP_def entry_def good_entry_def valid_name_def is_upper_letter_def cps_def)

lemma good_DIMP: "\<forall>e \<in> set DIMP_MAP. good_entry e"
  by (simp add: DIMP_MAP_def entry_def good_entry_def valid_name_def is_upper_letter_def cps_def)

lemma good_HISTORY: "\<forall>e \<in> set HISTORY_MAP. good_entry e"
  by (simp add: HISTORY_MAP_def entry_def good_entry_def valid_name_def is_upper_letter_def cps_def)

lemma good_TABLE_MAP: "e \<in> set TABLE_MAP \<Longrightarrow> good_entry e"
proof -
  assume "e \<in> set TABLE_MAP"
  then have "e \<in> set CORE_DOC_MAP \<union> set HYBRID_MAP \<union> set AGGR_MAP \<union> set DIMP_MAP \<union> set HISTORY_MAP"
    unfolding TABLE_MAP_def using set_dict_merge_subset by blast
  then show ?thesis
    using good_CORE good_HYBRID good_AGGR good_DIMP good_HISTORY by blast
qed

lemma set_TABLE_NAMES: "set TABLE_NAMES = fst ` set TABLE_MAP"
  by (simp add: TABLE_NAMES_def)

lemma names_valid: "n \<in> set TABLE_NAMES \<Longrightarrow> valid_name n"
  using good_TABLE_MAP by (auto simp: set_TABLE_NAMES good_entry_def)

lemma fold_update_nonempty:
  "a \<noteq> [] \<Longrightarrow> fold (\<lambda>p. AList.update (fst p) (snd p)) b a \<noteq> []"
  by (induction b arbitrary: a) simp_all

lemma dict_merge_nonempty: "b \<noteq> [] \<Longrightarrow> dict_merge a b \<noteq> []"
  by (cases b) (simp_all add: dict_merge_def split_def fold_update_nonempty)

lemma TABLE_NAMES_nonempty: "TABLE_NAMES \<noteq> []"
proof -
  have "TABLE_MAP \<noteq> []" unfolding TABLE_MAP_def
    by (rule dict_merge_nonempty) (simp add: HISTORY_MAP_def)
  then have "set TABLE_NAMES \<noteq> {}" by (simp add: set_TABLE_NAMES)
  then show ?thesis by auto
qed

lemma concat_map_concat:
  "concat (map f (concat (map g xs))) = concat (map (\<lambda>x. concat (map f (g x))) xs)"
  by (induction xs) simp_all

lemma rmatch_TABLE_RE:
  "rmatch True TABLE_RE t p =
     (if word_boundary t p
      then concat (map (\<lambda>n. if lit_ok True n (drop p t) \<and> word_boundary t (p + length n)
                             then [p + length n] else []) TABLE_NAMES)
      else [])"
proof -
  have ne: "map lit TABLE_NAMES \<noteq> []" using TABLE_NAMES_nonempty by simp
  have eq: "\<And>n. concat (map (rmatch True WordB t)
                      (if lit_ok True n (drop p t) then [p + length n] else [])) =
                (if lit_ok True n (drop p t) \<and> word_boundary t (p + length n)
                 then [p + length n] else [])"
    by simp
  have "rmatch True (Seq (alts (map lit TABLE_NAMES)) WordB) t p =
        concat (map (\<lambda>n. if lit_ok True n (drop p t) \<and> word_boundary t (p + length n)
                             then [p + length n] else []) TABLE_NAMES)"
    by (simp add: rmatch_alts [OF ne] rmatch_lit concat_map_concat map_map comp_def eq)
  then show ?thesis by (simp add: TABLE_RE_def)
qed

lemma ci_eq_length: "ci_eq n w \<Longrightarrow> length w = length n"
  by (simp add: ci_eq_def list_all2_lengthD)

lemma ci_eq_words: "\<forall>a \<in> set n. is_upper_letter a \<Longrightarrow> ci_eq n w \<Longrightarrow> \<forall>c \<in> set w. is_word c"
  unfolding ci_eq_def
proof (induction n arbitrary: w)
  case Nil
  then show ?case by simp
next
  case (Cons a n)
  then obtain c w' where w: "w = c # w'" by (cases w) auto
  with Cons show ?case by (auto intro: ci_letter_word)
qed

lemma lit_ok_ci: "lit_ok True n u \<longleftrightarrow> length n \<le> length u \<and> ci_eq n (take (length n) u)"
  unfolding ci_eq_def
proof (induction n arbitrary: u)
  case Nil
  then show ?case by simp
next
  case (Cons a n)
  then show ?case by (cases u) auto
qed

lemma vocab_nonempty: "vocab w \<Longrightarrow> w \<noteq> []"
  using names_valid by (auto simp: vocab_def valid_name_def ci_eq_def)

lemma vocab_words: "vocab w \<Longrightarrow> \<forall>c \<in> set w. is_word c"
proof -
  assume "vocab w"
  then obtain n where n: "n \<in> set TABLE_NAMES" "ci_eq n w" by (auto simp: vocab_def)
  from names_valid [OF n(1)] have "\<forall>a \<in> set n. is_upper_letter a" by (simp add: valid_name_def)
  then show ?thesis using n(2) by (rule ci_eq_words)
qed

section \<open>The matcher\<close>

lemma word_start_boundary: "word_start t p \<Longrightarrow> word_boundary t p"
  by (auto simp: word_start_def word_boundary_def)

lemma name_match_word:
  assumes ws: "word_start t p" and n: "valid_name n"
  shows "(lit_ok True n (drop p t) \<and> word_boundary t (p + length n)) =
         ci_eq n (takeWhile is_word (drop p t))"
proof
  let ?u = "drop p t"
  assume a: "lit_ok True n ?u \<and> word_boundary t (p + length n)"
  then have len: "length n \<le> length ?u" and ci: "ci_eq n (take (length n) ?u)"
    by (simp_all add: lit_ok_ci)
  from n have n0: "0 < length n" and up: "\<forall>a \<in> set n. is_upper_letter a"
    by (simp_all add: valid_name_def)
  from ci_eq_words [OF up ci] have w: "\<forall>c \<in> set (take (length n) ?u). is_word c" .
  have inw: "\<And>i. i < length n \<Longrightarrow> is_word (?u ! i)"
  proof -
    fix i assume i: "i < length n"
    then have "take (length n) ?u ! i \<in> set (take (length n) ?u)"
      using len by (intro nth_mem) simp
    with w i show "is_word (?u ! i)" by simp
  qed
  have pl: "p + length n \<le> length t" using len n0 unfolding length_drop by arith
  have "is_word (?u ! (length n - 1))" using inw n0 by simp
  then have lastw: "is_word (t ! (p + length n - 1))" using pl n0 by simp
  have tw: "takeWhile is_word ?u = take (length n) ?u"
  proof (rule takeWhile_eq_take_P_nth)
    fix i assume "i < length n" "i < length ?u"
    then show "is_word (?u ! i)" using inw by simp
  next
    assume l: "length n < length ?u"
    from a have "word_boundary t (p + length n)" by simp
    with lastw pl n0 l have "\<not> is_word (t ! (p + length n))"
      by (auto simp: word_boundary_def)
    then show "\<not> is_word (?u ! length n)" using l by simp
  qed
  show "ci_eq n (takeWhile is_word ?u)" using ci by (simp add: tw)
next
  let ?u = "drop p t"
  let ?w = "takeWhile is_word ?u"
  assume ci: "ci_eq n ?w"
  then have lw: "length ?w = length n" by (rule ci_eq_length)
  from n have n0: "0 < length n" by (simp add: valid_name_def)
  have lu: "length ?w \<le> length ?u" by (rule length_takeWhile_le)
  have tk: "?w = take (length n) ?u" using takeWhile_eq_take [of is_word ?u] lw by simp
  have ok: "lit_ok True n ?u" using ci lu lw tk by (simp add: lit_ok_ci)
  have pl: "p + length n \<le> length t" using lu lw n0 unfolding length_drop by arith
  have "?w ! (length n - 1) \<in> set ?w" using n0 lw by (intro nth_mem) simp
  then have "is_word (?w ! (length n - 1))" by (auto dest: set_takeWhileD)
  then have "is_word (?u ! (length n - 1))" using tk n0 by simp
  then have lastw: "is_word (t ! (p + length n - 1))" using pl n0 by simp
  have nxt: "p + length n < length t \<Longrightarrow> \<not> is_word (t ! (p + length n))"
  proof -
    assume "p + length n < length t"
    then have "length ?w < length ?u" using lw by simp
    from nth_length_takeWhile [OF this] show ?thesis using lw pl by simp
  qed
  have "word_boundary t (p + length n)"
    using lastw nxt pl n0 by (auto simp: word_boundary_def)
  with ok show "lit_ok True n ?u \<and> word_boundary t (p + length n)" by simp
qed

lemma lit_ok_first_word:
  assumes n: "valid_name n" and ok: "lit_ok True n (drop p t)"
  shows "p < length t \<and> is_word (t ! p)"
proof -
  from n obtain a n' where n': "n = a # n'" and a: "is_upper_letter a"
    by (cases n) (auto simp: valid_name_def)
  from ok n' obtain c u where u: "drop p t = c # u" and c: "re_fold c = re_fold a"
    by (cases "drop p t") auto
  from u have p: "p < length t" by (cases "p < length t") auto
  with u have "t ! p = c" by (simp add: Cons_nth_drop_Suc [symmetric])
  with p ci_letter_word [OF a c] show ?thesis by simp
qed

lemma match_end_None: "match_end t p = None \<Longrightarrow> rmatch True TABLE_RE t p = []"
proof -
  assume me: "match_end t p = None"
  have "\<not> (lit_ok True n (drop p t) \<and> word_boundary t (p + length n))"
    if wb: "word_boundary t p" and n: "n \<in> set TABLE_NAMES" for n
  proof
    assume a: "lit_ok True n (drop p t) \<and> word_boundary t (p + length n)"
    have vn: "valid_name n" by (rule names_valid [OF n])
    from lit_ok_first_word [OF vn] a have "p < length t \<and> is_word (t ! p)" by simp
    with wb have ws: "word_start t p" by (auto simp: word_start_def word_boundary_def)
    from name_match_word [OF ws vn] a have "ci_eq n (takeWhile is_word (drop p t))" by simp
    with n have "vocab (takeWhile is_word (drop p t))" by (auto simp: vocab_def)
    with ws me show False by (simp add: match_end_def)
  qed
  then show ?thesis by (auto simp: rmatch_TABLE_RE)
qed

lemma concat_hd:
  "(\<forall>x \<in> set xs. f x = [] \<or> f x = [e]) \<Longrightarrow> (\<exists>x \<in> set xs. f x = [e]) \<Longrightarrow>
   \<exists>l. concat (map f xs) = e # l"
proof (induction xs)
  case Nil
  then show ?case by simp
next
  case (Cons x xs)
  show ?case
  proof (cases "f x = [e]")
    case True
    then show ?thesis by simp
  next
    case False
    with Cons.prems have "f x = []" "\<exists>x \<in> set xs. f x = [e]" by auto
    with Cons show ?thesis by simp
  qed
qed

lemma match_end_Some:
  assumes "match_end t p = Some e"
  shows "\<exists>l. rmatch True TABLE_RE t p = e # l"
proof -
  let ?w = "takeWhile is_word (drop p t)"
  let ?f = "\<lambda>n. if lit_ok True n (drop p t) \<and> word_boundary t (p + length n)
                 then [p + length n] else []"
  from assms have ws: "word_start t p" and v: "vocab ?w" and e: "e = p + length ?w"
    by (auto simp: match_end_def Let_def split: if_splits)
  have f: "?f n = (if ci_eq n ?w then [e] else [])" if "n \<in> set TABLE_NAMES" for n
    using name_match_word [OF ws names_valid [OF that]] ci_eq_length [of n ?w] e by auto
  from v obtain n where n: "n \<in> set TABLE_NAMES" "ci_eq n ?w" by (auto simp: vocab_def)
  have "\<exists>l. concat (map ?f TABLE_NAMES) = e # l"
  proof (rule concat_hd)
    show "\<forall>x \<in> set TABLE_NAMES. ?f x = [] \<or> ?f x = [e]" using f by auto
    show "\<exists>x \<in> set TABLE_NAMES. ?f x = [e]" using f n by auto
  qed
  then show ?thesis using word_start_boundary [OF ws] by (simp add: rmatch_TABLE_RE)
qed

lemma match_end_bounds: "match_end t p = Some e \<Longrightarrow> p < e \<and> e \<le> length t"
proof -
  let ?w = "takeWhile is_word (drop p t)"
  assume "match_end t p = Some e"
  then have ws: "word_start t p" and v: "vocab ?w" and e: "e = p + length ?w"
    by (auto simp: match_end_def Let_def split: if_splits)
  have "length ?w \<le> length (drop p t)" by (rule length_takeWhile_le)
  moreover have "p < length t" using ws by (simp add: word_start_def)
  moreover have "?w \<noteq> []" using v by (rule vocab_nonempty)
  ultimately show ?thesis using e by (cases ?w) auto
qed

lemma fi_step:
  "finditer_from True TABLE_RE t p =
     (if length t < p then []
      else case match_end t p of
             None \<Rightarrow> finditer_from True TABLE_RE t (p + 1)
           | Some e \<Rightarrow> (p, e) # finditer_from True TABLE_RE t e)"
proof (cases "match_end t p")
  case None
  then show ?thesis
    by (subst finditer_from.simps) (simp add: match_end_None)
next
  case (Some e)
  from match_end_Some [OF Some] obtain l where l: "rmatch True TABLE_RE t p = e # l" by blast
  from match_end_bounds [OF Some] have "p < e" by simp
  then show ?thesis using Some l
    by (subst finditer_from.simps) simp
qed

lemma fi_beyond: "length t < p \<Longrightarrow> finditer_from True TABLE_RE t p = []"
  by (subst fi_step) simp

lemma fi_skip:
  assumes "a \<le> b" and "b \<le> Suc (length t)" and "\<forall>q. a \<le> q \<and> q < b \<longrightarrow> match_end t q = None"
  shows "finditer_from True TABLE_RE t a = finditer_from True TABLE_RE t b"
  using assms(1)
proof (induction rule: inc_induct)
  case base
  show ?case by simp
next
  case (step n)
  from step.hyps assms(2) have "n \<le> length t" by simp
  moreover have "match_end t n = None" using assms(3) step.hyps by simp
  ultimately have "finditer_from True TABLE_RE t n = finditer_from True TABLE_RE t (Suc n)"
    by (subst fi_step) simp
  with step.IH show ?case by simp
qed

lemma not_vocab_Nil: "\<not> vocab []"
  using vocab_nonempty by blast

lemma flush_Nil: "flush p [] = []"
  by (simp add: flush_def not_vocab_Nil)

lemma fi_word:
  assumes cur: "\<forall>c \<in> set cur. is_word c"
    and pre: "pre = [] \<or> \<not> is_word (last pre)"
    and rest: "rest = [] \<or> \<not> is_word (hd rest)"
  shows "finditer_from True TABLE_RE (pre @ cur @ rest) (length pre) =
         flush (length pre + length cur) cur @
         finditer_from True TABLE_RE (pre @ cur @ rest) (Suc (length pre + length cur))"
proof -
  let ?t = "pre @ cur @ rest"
  let ?s = "length pre"
  let ?p = "length pre + length cur"
  have pt: "?p \<le> length ?t" by simp
  have a: "match_end ?t ?p = None"
  proof -
    have "\<not> word_start ?t ?p"
    proof (cases rest)
      case Nil
      then show ?thesis by (simp add: word_start_def)
    next
      case (Cons r rs)
      with rest have "\<not> is_word r" by simp
      moreover have "?t ! ?p = r" using Cons by (simp add: nth_append)
      ultimately show ?thesis by (simp add: word_start_def)
    qed
    then show ?thesis by (simp add: match_end_def)
  qed
  have b: "match_end ?t q = None" if q: "?s < q" "q < ?p" for q
  proof -
    define k where "k = q - 1 - ?s"
    have k: "q - 1 = ?s + k" "k < length cur" using q unfolding k_def by arith+
    have "?t ! (?s + k) = (cur @ rest) ! k" by (rule nth_append_length_plus)
    also have "\<dots> = cur ! k" using k(2) by (simp add: nth_append)
    finally have "?t ! (q - 1) = cur ! k" using k(1) by simp
    moreover have "cur ! k \<in> set cur" using k(2) by (rule nth_mem)
    ultimately have "is_word (?t ! (q - 1))" using cur by simp
    then have "\<not> word_start ?t q" using q by (simp add: word_start_def)
    then show ?thesis by (simp add: match_end_def)
  qed
  have step_p: "finditer_from True TABLE_RE ?t ?p = finditer_from True TABLE_RE ?t (Suc ?p)"
    using a pt by (subst fi_step) simp
  show ?thesis
  proof (cases "cur = []")
    case True
    then show ?thesis using step_p by (simp add: flush_Nil)
  next
    case False
    then obtain c cur' where cc: "cur = c # cur'" by (cases cur) auto
    have ws: "word_start ?t ?s"
    proof -
      have "?t ! ?s = c" using cc by (simp add: nth_append)
      moreover have "is_word c" using cur cc by simp
      moreover have "?s = 0 \<or> \<not> is_word (?t ! (?s - 1))"
      proof (cases "pre = []")
        case True
        then show ?thesis by simp
      next
        case False
        then have "?t ! (?s - 1) = last pre" by (simp add: nth_append last_conv_nth)
        with pre False show ?thesis by simp
      qed
      ultimately show ?thesis using cc by (simp add: word_start_def)
    qed
    have "takeWhile is_word rest = []" using rest by (cases rest) auto
    then have tw: "takeWhile is_word (drop ?s ?t) = cur"
      using cur by (simp add: takeWhile_append2)
    show ?thesis
    proof (cases "vocab cur")
      case True
      then have "match_end ?t ?s = Some ?p" using ws tw by (simp add: match_end_def)
      then have "finditer_from True TABLE_RE ?t ?s = (?s, ?p) # finditer_from True TABLE_RE ?t ?p"
        by (subst fi_step) simp
      then show ?thesis using True step_p by (simp add: flush_def)
    next
      case False
      then have s: "match_end ?t ?s = None" using tw by (simp add: match_end_def)
      have "\<forall>q. ?s \<le> q \<and> q < Suc ?p \<longrightarrow> match_end ?t q = None"
      proof (intro allI impI)
        fix q assume "?s \<le> q \<and> q < Suc ?p"
        then have "q = ?s \<or> (?s < q \<and> q < ?p) \<or> q = ?p" by arith
        then show "match_end ?t q = None" using s a b by blast
      qed
      then have "finditer_from True TABLE_RE ?t ?s = finditer_from True TABLE_RE ?t (Suc ?p)"
        by (intro fi_skip) simp_all
      then show ?thesis using False by (simp add: flush_def)
    qed
  qed
qed

lemma scan_fi:
  "\<forall>c \<in> set cur. is_word c \<Longrightarrow> pre = [] \<or> \<not> is_word (last pre) \<Longrightarrow>
   finditer_from True TABLE_RE (pre @ cur @ cs) (length pre) =
   scan (length pre + length cur) cur cs"
proof (induction cs arbitrary: pre cur)
  case Nil
  from fi_word [OF Nil(1) Nil(2), of "[]"] show ?case
    by (simp add: fi_beyond)
next
  case (Cons c cs)
  show ?case
  proof (cases "is_word c")
    case True
    have "finditer_from True TABLE_RE (pre @ (cur @ [c]) @ cs) (length pre) =
          scan (length pre + length (cur @ [c])) (cur @ [c]) cs"
      by (rule Cons.IH) (use Cons.prems True in auto)
    then show ?thesis using True by simp
  next
    case False
    have "finditer_from True TABLE_RE ((pre @ cur @ [c]) @ [] @ cs) (length (pre @ cur @ [c])) =
          scan (length (pre @ cur @ [c]) + length ([]::str)) [] cs"
      by (rule Cons.IH) (use False in auto)
    then have r: "finditer_from True TABLE_RE (pre @ cur @ c # cs) (Suc (length pre + length cur)) =
          scan (Suc (length pre + length cur)) [] cs" by simp
    from fi_word [OF Cons.prems(1) Cons.prems(2), of "c # cs"] False r
    show ?thesis by simp
  qed
qed

lemma table_matches_scan: "table_matches t = scan 0 [] t"
  using scan_fi [of "[]" "[]" t] by (simp add: table_matches_def finditer_def)

lemma scan_lb:
  "length cur \<le> p \<Longrightarrow> m \<in> set (scan p cur cs) \<Longrightarrow>
   p - length cur \<le> fst m \<and> fst m < snd m \<and> snd m \<le> p + length cs"
proof (induction cs arbitrary: p cur)
  case Nil
  then show ?case using vocab_nonempty [of cur]
    by (cases cur) (auto simp: flush_def split: if_splits)
next
  case (Cons c cs)
  show ?case
  proof (cases "is_word c")
    case True
    with Cons.prems have "m \<in> set (scan (p + 1) (cur @ [c]) cs)" by simp
    from Cons.IH [OF _ this] Cons.prems(1) show ?thesis by simp
  next
    case False
    with Cons.prems have "m \<in> set (flush p cur) \<or> m \<in> set (scan (p + 1) [] cs)" by auto
    then show ?thesis
    proof
      assume "m \<in> set (flush p cur)"
      then show ?thesis using vocab_nonempty [of cur] Cons.prems(1)
        by (cases cur) (auto simp: flush_def split: if_splits)
    next
      assume "m \<in> set (scan (p + 1) [] cs)"
      from Cons.IH [OF _ this]
      have "p + 1 - length ([]::str) \<le> fst m \<and> fst m < snd m \<and> snd m \<le> p + 1 + length cs"
        by simp
      then show ?thesis by simp arith
    qed
  qed
qed

lemma scan_sorted:
  "length cur \<le> p \<Longrightarrow> sorted_wrt (\<lambda>a b. snd a < fst b) (scan p cur cs)"
proof (induction cs arbitrary: p cur)
  case Nil
  then show ?case by (simp add: flush_def)
next
  case (Cons c cs)
  show ?case
  proof (cases "is_word c")
    case True
    then show ?thesis using Cons.IH [of "cur @ [c]" "p + 1"] Cons.prems by simp
  next
    case False
    have "\<forall>b \<in> set (scan (p + 1) [] cs). p < fst b"
    proof
      fix b assume "b \<in> set (scan (p + 1) [] cs)"
      from scan_lb [OF _ this] have "p + 1 \<le> fst b" by simp
      then show "p < fst b" by arith
    qed
    then show ?thesis using False Cons.IH [of "[]" "p + 1"]
      by (auto simp: flush_def sorted_wrt_append)
  qed
qed

lemma slice_mid: "slice (pre @ cur @ rest) (length pre) (length pre + length cur) = cur"
  by (simp add: slice_def)

lemma scan_sound:
  assumes "\<forall>c \<in> set cur. is_word c" and "pre = [] \<or> \<not> is_word (last pre)"
    and "m \<in> set (scan (length pre + length cur) cur cs)"
  shows "occurrence (pre @ cur @ cs) (fst m) (snd m)"
  using assms
proof (induction cs arbitrary: pre cur)
  case Nil
  then have v: "vocab cur" and m: "m = (length pre, length pre + length cur)"
    by (auto simp: flush_def split: if_splits)
  from vocab_nonempty [OF v] obtain c cur' where cc: "cur = c # cur'" by (cases cur) auto
  have "length pre = 0 \<or> \<not> is_word ((pre @ cur) ! (length pre - 1))"
    using Nil(2) by (cases "pre = []") (simp_all add: nth_append last_conv_nth)
  then show ?case using v m cc slice_mid [of pre cur "[]"]
    by (simp add: occurrence_def)
next
  case (Cons c cs)
  show ?case
  proof (cases "is_word c")
    case True
    have "occurrence (pre @ (cur @ [c]) @ cs) (fst m) (snd m)"
      by (rule Cons.IH) (use Cons.prems True in auto)
    then show ?thesis by simp
  next
    case False
    with Cons.prems(3)
    have "m \<in> set (flush (length pre + length cur) cur) \<or>
          m \<in> set (scan (Suc (length pre + length cur)) [] cs)" by auto
    then show ?thesis
    proof
      assume "m \<in> set (flush (length pre + length cur) cur)"
      then have v: "vocab cur" and m: "m = (length pre, length pre + length cur)"
        by (auto simp: flush_def split: if_splits)
      from vocab_nonempty [OF v] obtain d cur' where cc: "cur = d # cur'" by (cases cur) auto
      have "length pre = 0 \<or> \<not> is_word ((pre @ cur @ c # cs) ! (length pre - 1))"
        using Cons.prems(2) by (cases "pre = []") (simp_all add: nth_append last_conv_nth)
      moreover have "(pre @ cur @ c # cs) ! (length pre + length cur) = c"
        using nth_append_length_plus [of "pre @ cur" "c # cs" 0] by simp
      ultimately show ?thesis using v m cc False slice_mid [of pre cur "c # cs"]
        by (simp add: occurrence_def)
    next
      assume a: "m \<in> set (scan (Suc (length pre + length cur)) [] cs)"
      have "occurrence ((pre @ cur @ [c]) @ [] @ cs) (fst m) (snd m)"
        by (rule Cons.IH) (use a False in auto)
      then show ?thesis by simp
    qed
  qed
qed

lemma table_matches_occurrence: "m \<in> set (table_matches t) \<Longrightarrow> occurrence t (fst m) (snd m)"
  using scan_sound [of "[]" "[]" m t] by (simp add: table_matches_scan)

lemma table_matches_sorted: "sorted_wrt (\<lambda>a b. snd a < fst b) (table_matches t)"
  using scan_sorted [of "[]" 0 t] by (simp add: table_matches_scan)

lemma table_matches_Nil: "table_matches [] = []"
  by (simp add: table_matches_scan flush_Nil)

section \<open>The loop of remediate_code\<close>

lemma entry_lookup:
  assumes "n \<in> fst ` set TABLE_MAP"
  shows "\<exists>t. t \<noteq> [] \<and> map_of TABLE_MAP n =
           Some [(''new'', if n = cps ''MKPF'' \<or> n = cps ''MSEG'' then cps ''MATDOC''
                           else cps ''NSDM_V_'' @ n),
                 (''note'', t)]"
proof -
  from assms obtain info where i: "map_of TABLE_MAP n = Some info"
    by (cases "map_of TABLE_MAP n") (auto simp: map_of_eq_None_iff)
  then have "(n, info) \<in> set TABLE_MAP" by (rule map_of_SomeD)
  then have "good_entry (n, info)" by (rule good_TABLE_MAP)
  with i show ?thesis by (auto simp: good_entry_def)
qed

lemma name_lookup:
  assumes "n \<in> set TABLE_NAMES"
  shows "\<exists>t. t \<noteq> [] \<and> map_of TABLE_MAP n =
           Some [(''new'', if n = cps ''MKPF'' \<or> n = cps ''MSEG'' then cps ''MATDOC''
                           else cps ''NSDM_V_'' @ n),
                 (''note'', t)]"
  using assms entry_lookup by (simp add: set_TABLE_NAMES)

lemma replacement_of_name:
  "n \<in> set TABLE_NAMES \<Longrightarrow>
   replacement_of n = (if n = cps ''MKPF'' \<or> n = cps ''MSEG'' then cps ''MATDOC''
                       else cps ''NSDM_V_'' @ n)"
  using name_lookup [of n] by (auto simp: replacement_of_def)


lemma slice_append: "a \<le> b \<Longrightarrow> b \<le> c \<Longrightarrow> slice t a c = slice t a b @ slice t b c"
proof -
  assume ab: "a \<le> b" and bc: "b \<le> c"
  then have "c - a = (b - a) + (c - b)" by arith
  then have "take (c - a) (drop a t) = take (b - a) (drop a t) @ take (c - b) (drop (b - a) (drop a t))"
    by (simp only: take_add)
  then show ?thesis using ab by (simp add: slice_def)
qed

lemma slice_drop: "a \<le> b \<Longrightarrow> drop a t = slice t a b @ drop b t"
proof -
  assume ab: "a \<le> b"
  have "drop a t = take (b - a) (drop a t) @ drop (b - a) (drop a t)"
    by (rule append_take_drop_id [symmetric])
  moreover have "drop (b - a) (drop a t) = drop b t" using ab by simp
  ultimately show ?thesis by (simp only: slice_def)
qed

lemma render_advance:
  "a \<le> b \<Longrightarrow> \<forall>m \<in> set ms. b \<le> fst m \<Longrightarrow> render t f a ms = slice t a b @ render t f b ms"
proof (cases ms)
  case Nil
  assume "a \<le> b"
  then show ?thesis using Nil by (simp add: slice_drop)
next
  case (Cons m ms')
  assume "a \<le> b" "\<forall>m \<in> set ms. b \<le> fst m"
  then have "slice t a (fst m) = slice t a b @ slice t b (fst m)"
    using Cons by (intro slice_append) simp_all
  then show ?thesis using Cons by simp
qed

lemma loop_body_eq:
  "loop_body txt (change_marker d) (last_idx, parts, issues) m =
     Inr (if is_protected txt m then (snd m, parts @ [slice txt last_idx (snd m)], issues)
          else if is_rewritable txt m
          then (snd m,
                parts @ [slice txt last_idx (fst m), replacement_of (match_name txt m),
                         change_marker d],
                issues @ [issue_of txt m])
          else (last_idx, parts, issues))"
proof (cases "has_entry txt m")
  case False
  then have "map_of TABLE_MAP (str_upper (slice txt (fst m) (snd m))) = None"
    by (simp add: has_entry_def match_name_def map_of_eq_None_iff)
  then show ?thesis using False
    by (simp add: loop_body_def Let_def is_protected_def is_rewritable_def)
next
  case True
  let ?n = "match_name txt m"
  from True have e: "?n \<in> fst ` set TABLE_MAP" by (simp add: has_entry_def)
  from entry_lookup [OF e] obtain t where t: "t \<noteq> []"
    and l: "map_of TABLE_MAP ?n =
           Some [(''new'', if ?n = cps ''MKPF'' \<or> ?n = cps ''MSEG'' then cps ''MATDOC''
                           else cps ''NSDM_V_'' @ ?n),
                 (''note'', t)]" by blast
  have r: "replacement_of ?n = (if ?n = cps ''MKPF'' \<or> ?n = cps ''MSEG'' then cps ''MATDOC''
                               else cps ''NSDM_V_'' @ ?n)"
    using l by (simp add: replacement_of_def)
  have nt: "note_of ?n = Some t" using l t by (simp add: note_of_def)
  have l': "map_of TABLE_MAP (str_upper (slice txt (fst m) (snd m))) =
           Some [(''new'', replacement_of ?n), (''note'', t)]"
    using l r by (simp add: match_name_def)
  show ?thesis
    unfolding loop_body_def Let_def l'
    using t nt True
    by (simp add: is_protected_def is_rewritable_def match_name_def [symmetric] add_hit_def
        issue_of_def Let_def)
qed

lemma run_loop_eq:
  assumes "\<forall>m \<in> set ms. fst m \<le> snd m"
    and "sorted_wrt (\<lambda>a b. snd a \<le> fst b) ms"
    and "\<forall>m \<in> set ms. last_idx \<le> fst m"
  shows "\<exists>st. run_loop txt (change_marker d) (last_idx, parts, issues) ms = Inr st \<and>
           concat (fst (snd st)) @ drop (fst st) txt =
             concat parts @ render txt (substitute d txt) last_idx ms \<and>
           snd (snd st) = issues @ map (issue_of txt) (filter (is_rewritable txt) ms)"
  using assms
proof (induction ms arbitrary: last_idx parts issues)
  case Nil
  then show ?case by simp
next
  case (Cons m ms)
  from Cons.prems have le: "fst m \<le> snd m" and la: "last_idx \<le> fst m"
    and nx: "\<forall>m' \<in> set ms. snd m \<le> fst m'" by simp_all
  have pr: "\<not> (is_protected txt m \<and> is_rewritable txt m)"
    by (simp add: is_protected_def is_rewritable_def)
  consider (p) "is_protected txt m" | (r) "is_rewritable txt m"
    | (s) "\<not> is_protected txt m" "\<not> is_rewritable txt m" by blast
  then show ?case
  proof cases
    case p
    with pr have nr: "\<not> is_rewritable txt m" by simp
    let ?parts = "parts @ [slice txt last_idx (snd m)]"
    have b: "loop_body txt (change_marker d) (last_idx, parts, issues) m =
               Inr (snd m, ?parts, issues)"
      using p by (simp add: loop_body_eq)
    have "\<exists>st. run_loop txt (change_marker d) (snd m, ?parts, issues) ms = Inr st \<and>
           concat (fst (snd st)) @ drop (fst st) txt =
             concat ?parts @ render txt (substitute d txt) (snd m) ms \<and>
           snd (snd st) = issues @ map (issue_of txt) (filter (is_rewritable txt) ms)"
      by (rule Cons.IH) (use Cons.prems in auto)
    then obtain st where st: "run_loop txt (change_marker d) (snd m, ?parts, issues) ms = Inr st"
      and c: "concat (fst (snd st)) @ drop (fst st) txt =
               concat ?parts @ render txt (substitute d txt) (snd m) ms"
      and i: "snd (snd st) = issues @ map (issue_of txt) (filter (is_rewritable txt) ms)"
      by blast
    have "concat ?parts = concat parts @ slice txt last_idx (fst m) @ substitute d txt m"
      using slice_append [OF la le, of "txt"] nr by (simp add: substitute_def)
    with c have c': "concat (fst (snd st)) @ drop (fst st) txt =
               concat parts @ render txt (substitute d txt) last_idx (m # ms)" by simp
    show ?thesis using b st c' i nr by simp
  next
    case r
    with pr have np: "\<not> is_protected txt m" by simp
    let ?parts = "parts @ [slice txt last_idx (fst m), replacement_of (match_name txt m),
                           change_marker d]"
    let ?issues = "issues @ [issue_of txt m]"
    have b: "loop_body txt (change_marker d) (last_idx, parts, issues) m =
               Inr (snd m, ?parts, ?issues)"
      using r np by (simp add: loop_body_eq)
    have "\<exists>st. run_loop txt (change_marker d) (snd m, ?parts, ?issues) ms = Inr st \<and>
           concat (fst (snd st)) @ drop (fst st) txt =
             concat ?parts @ render txt (substitute d txt) (snd m) ms \<and>
           snd (snd st) = ?issues @ map (issue_of txt) (filter (is_rewritable txt) ms)"
      by (rule Cons.IH) (use Cons.prems in auto)
    then obtain st where st: "run_loop txt (change_marker d) (snd m, ?parts, ?issues) ms = Inr st"
      and c: "concat (fst (snd st)) @ drop (fst st) txt =
               concat ?parts @ render txt (substitute d txt) (snd m) ms"
      and i: "snd (snd st) = ?issues @ map (issue_of txt) (filter (is_rewritable txt) ms)"
      by blast
    have "concat ?parts = concat parts @ slice txt last_idx (fst m) @ substitute d txt m"
      using r by (simp add: substitute_def)
    with c have c': "concat (fst (snd st)) @ drop (fst st) txt =
               concat parts @ render txt (substitute d txt) last_idx (m # ms)" by simp
    show ?thesis using b st c' i r by simp
  next
    case s
    have b: "loop_body txt (change_marker d) (last_idx, parts, issues) m =
               Inr (last_idx, parts, issues)"
      using s by (simp add: loop_body_eq)
    have l2: "\<forall>m' \<in> set ms. last_idx \<le> fst m'"
    proof
      fix m' assume "m' \<in> set ms"
      with nx have "snd m \<le> fst m'" by simp
      with la le show "last_idx \<le> fst m'" by arith
    qed
    have "\<exists>st. run_loop txt (change_marker d) (last_idx, parts, issues) ms = Inr st \<and>
           concat (fst (snd st)) @ drop (fst st) txt =
             concat parts @ render txt (substitute d txt) last_idx ms \<and>
           snd (snd st) = issues @ map (issue_of txt) (filter (is_rewritable txt) ms)"
      by (rule Cons.IH) (use Cons.prems l2 in auto)
    then obtain st where st: "run_loop txt (change_marker d) (last_idx, parts, issues) ms = Inr st"
      and c: "concat (fst (snd st)) @ drop (fst st) txt =
               concat parts @ render txt (substitute d txt) last_idx ms"
      and i: "snd (snd st) = issues @ map (issue_of txt) (filter (is_rewritable txt) ms)"
      by blast
    have ls: "last_idx \<le> snd m" using la le by arith
    have "render txt (substitute d txt) last_idx (m # ms) =
          slice txt last_idx (fst m) @ slice txt (fst m) (snd m) @
          render txt (substitute d txt) (snd m) ms"
      using s by (simp add: substitute_def)
    also have "\<dots> = slice txt last_idx (snd m) @ render txt (substitute d txt) (snd m) ms"
      using slice_append [OF la le, of "txt"] by simp
    also have "\<dots> = render txt (substitute d txt) last_idx ms"
      by (rule render_advance [OF ls nx, symmetric])
    finally have "render txt (substitute d txt) last_idx (m # ms) =
                  render txt (substitute d txt) last_idx ms" .
    with c have c': "concat (fst (snd st)) @ drop (fst st) txt =
               concat parts @ render txt (substitute d txt) last_idx (m # ms)" by simp
    show ?thesis using b st c' i s by simp
  qed
qed

lemma table_matches_sort: "sort_key fst (table_matches txt) = table_matches txt"
proof (rule sort_key_id_if_sorted)
  have "sorted_wrt (\<lambda>a b. fst a \<le> fst b) (table_matches txt)"
  proof (rule sorted_wrt_mono_rel [OF _ table_matches_sorted])
    fix a b :: "nat \<times> nat"
    assume "a \<in> set (table_matches txt)" "snd a < fst b"
    with table_matches_occurrence [of a "txt"] show "fst a \<le> fst b"
      by (simp add: occurrence_def)
  qed
  then show "sorted (map fst (table_matches txt))" by (simp add: sorted_map)
qed

lemma remediate_code_eq:
  "remediate_code d txt =
     Inr (render txt (substitute d txt) 0 (table_matches txt),
          map (issue_of txt) (rewritable txt))"
proof (cases "txt = []")
  case True
  then show ?thesis
    by (simp add: remediate_code_def table_matches_Nil rewritable_def)
next
  case False
  have 1: "\<forall>m \<in> set (table_matches txt). fst m \<le> snd m"
  proof
    fix m assume "m \<in> set (table_matches txt)"
    then have o: "occurrence txt (fst m) (snd m)" by (rule table_matches_occurrence)
    then show "fst m \<le> snd m" by (simp add: occurrence_def)
  qed
  have 2: "sorted_wrt (\<lambda>a b. snd a \<le> fst b) (table_matches txt)"
    by (rule sorted_wrt_mono_rel [OF _ table_matches_sorted]) simp
  from run_loop_eq [OF 1 2, of 0 "txt" d "[]" "[]"]
  obtain st where "run_loop txt (change_marker d) (0, [], []) (table_matches txt) = Inr st"
    "concat (fst (snd st)) @ drop (fst st) txt = render txt (substitute d txt) 0 (table_matches txt)"
    "snd (snd st) = map (issue_of txt) (filter (is_rewritable txt) (table_matches txt))"
    by auto
  then show ?thesis using False
    by (simp add: remediate_code_def table_matches_sort rewritable_def)
qed

section \<open>Evaluation on concrete texts\<close>

lemma keys_update: "fst ` set (AList.update k v al) = insert k (fst ` set al)"
  by (simp add: AList.dom_update)

lemma keys_fold_update:
  "fst ` set (fold (\<lambda>p. AList.update (fst p) (snd p)) b a) = fst ` set a \<union> fst ` set b"
  by (induction b arbitrary: a) (auto simp: keys_update)

lemma keys_dict_merge: "fst ` set (dict_merge a b) = fst ` set a \<union> fst ` set b"
  by (simp add: dict_merge_def split_def keys_fold_update)

lemma fst_entry: "fst (entry k n t) = cps k"
  by (simp add: entry_def)

lemma names_literal:
  "set TABLE_NAMES =
     {cps ''MKPF'', cps ''MSEG'',
      cps ''MARC'', cps ''MARD'', cps ''MCHB'', cps ''MKOL'', cps ''MSLB'', cps ''MSKA'', cps ''MSPR'', cps ''MSKU'',
      cps ''MSSA'', cps ''MSSL'', cps ''MSSQ'', cps ''MSTB'', cps ''MSTE'', cps ''MSTQ'',
      cps ''MCSD'', cps ''MCSS'', cps ''MSCD'', cps ''MSCS'', cps ''MSFD'', cps ''MSFS'', cps ''MSID'', cps ''MSIS'', cps ''MSRD'', cps ''MSRS'',
      cps ''MARCH'', cps ''MARDH'', cps ''MCHBH'', cps ''MKOLH'', cps ''MSLBH'', cps ''MSKAH'', cps ''MSSAH'', cps ''MSPRH'',
      cps ''MSSQH'', cps ''MSKUH'', cps ''MSTBH'', cps ''MSTEH'', cps ''MSTQH'', cps ''MCSDH'', cps ''MCSSH'', cps ''MSCDH'',
      cps ''MSFDH'', cps ''MSIDH'', cps ''MSRDH''}"
proof -
  have 1: "fst ` set CORE_DOC_MAP = {cps ''MKPF'', cps ''MSEG''}"
    by (simp add: CORE_DOC_MAP_def fst_entry)
  have 2: "fst ` set HYBRID_MAP =
     {cps ''MARC'', cps ''MARD'', cps ''MCHB'', cps ''MKOL'', cps ''MSLB'', cps ''MSKA'', cps ''MSPR'', cps ''MSKU''}"
    by (simp add: HYBRID_MAP_def fst_entry)
  have 3: "fst ` set AGGR_MAP = {cps ''MSSA'', cps ''MSSL'', cps ''MSSQ'', cps ''MSTB'', cps ''MSTE'', cps ''MSTQ''}"
    by (simp add: AGGR_MAP_def fst_entry)
  have 4: "fst ` set DIMP_MAP =
     {cps ''MCSD'', cps ''MCSS'', cps ''MSCD'', cps ''MSCS'', cps ''MSFD'', cps ''MSFS'', cps ''MSID'', cps ''MSIS'', cps ''MSRD'', cps ''MSRS''}"
    by (simp add: DIMP_MAP_def fst_entry)
  have 5: "fst ` set HISTORY_MAP =
     {cps ''MARCH'', cps ''MARDH'', cps ''MCHBH'', cps ''MKOLH'', cps ''MSLBH'', cps ''MSKAH'', cps ''MSSAH'', cps ''MSPRH'',
      cps ''MSSQH'', cps ''MSKUH'', cps ''MSTBH'', cps ''MSTEH'', cps ''MSTQH'', cps ''MCSDH'', cps ''MCSSH'', cps ''MSCDH'',
      cps ''MSFDH'', cps ''MSIDH'', cps ''MSRDH''}"
    by (simp add: HISTORY_MAP_def fst_entry)
  have "set TABLE_NAMES =
     fst ` set CORE_DOC_MAP \<union> fst ` set HYBRID_MAP \<union> fst ` set AGGR_MAP \<union> fst ` set DIMP_MAP \<union>
     fst ` set HISTORY_MAP"
    by (simp add: set_TABLE_NAMES TABLE_MAP_def keys_dict_merge)
  then show ?thesis unfolding 1 2 3 4 5 by (simp only: Un_insert_left Un_insert_right Un_empty_left Un_empty_right insert_commute)
qed

lemma occurrence_words:
  assumes "occurrence t s e" and "s \<le> i" and "i < e"
  shows "is_word (t ! i)"
proof -
  from assms(1) have v: "vocab (slice t s e)" and e: "e \<le> length t"
    by (simp_all add: occurrence_def)
  have l: "length (slice t s e) = e - s" using e by (simp add: slice_def)
  have "i - s < length (slice t s e)" using assms(2,3) l by simp
  then have "slice t s e ! (i - s) \<in> set (slice t s e)" by (rule nth_mem)
  moreover have "slice t s e ! (i - s) = t ! i" using assms(2,3) e by (simp add: slice_def)
  ultimately show ?thesis using vocab_words [OF v] by simp
qed

lemma word_span_unique:
  assumes cur: "\<forall>c \<in> set cur. is_word c"
    and rest: "rest = [] \<or> \<not> is_word (hd rest)"
    and occ: "occurrence (pre @ cur @ rest) s e"
    and lb: "length pre \<le> s" and ub: "s \<le> length pre + length cur"
  shows "s = length pre \<and> e = length pre + length cur \<and> vocab cur"
proof -
  let ?t = "pre @ cur @ rest"
  let ?p = "length pre + length cur"
  from occ have se: "s < e" and el: "e \<le> length ?t"
    and bs: "s = 0 \<or> \<not> is_word (?t ! (s - 1))"
    and be: "e = length ?t \<or> \<not> is_word (?t ! e)"
    and v: "vocab (slice ?t s e)" by (simp_all add: occurrence_def)
  have np: "\<not> is_word (?t ! ?p)" if "?p < length ?t"
  proof -
    from that obtain r rs where r: "rest = r # rs" by (cases rest) auto
    have "?t ! ?p = r" using nth_append_length_plus [of "pre @ cur" rest 0] r by simp
    with rest r show ?thesis by simp
  qed
  have incur: "is_word (?t ! i)" if "length pre \<le> i" "i < ?p" for i
  proof -
    define k where "k = i - length pre"
    have k: "i = length pre + k" "k < length cur" using that unfolding k_def by arith+
    have "?t ! (length pre + k) = (cur @ rest) ! k" by (rule nth_append_length_plus)
    also have "\<dots> = cur ! k" using k(2) by (simp add: nth_append)
    finally have "?t ! i = cur ! k" using k(1) by simp
    moreover have "cur ! k \<in> set cur" using k(2) by (rule nth_mem)
    ultimately show ?thesis using cur by simp
  qed
  have ep: "e \<le> ?p"
  proof (rule ccontr)
    assume "\<not> e \<le> ?p"
    then have "?p < e" by simp
    with occurrence_words [OF occ ub] have "is_word (?t ! ?p)" by simp
    moreover have "?p < length ?t" using \<open>?p < e\<close> el by arith
    ultimately show False using np by simp
  qed
  have s: "s = length pre"
  proof (rule ccontr)
    assume "s \<noteq> length pre"
    then have "length pre \<le> s - 1" "s - 1 < ?p" "s \<noteq> 0" using lb se ep by arith+
    with incur [of "s - 1"] bs show False by simp
  qed
  have e: "e = ?p"
  proof (rule ccontr)
    assume "e \<noteq> ?p"
    then have "e < ?p" using ep by simp
    moreover have "length pre \<le> e" using s se by simp
    ultimately have "is_word (?t ! e)" by (intro incur)
    moreover have "e \<noteq> length ?t" using \<open>e < ?p\<close> by simp
    ultimately show False using be by simp
  qed
  from v s e have "vocab cur" by (simp add: slice_mid)
  with s e show ?thesis by simp
qed

lemma scan_complete:
  assumes "\<forall>c \<in> set cur. is_word c" and "pre = [] \<or> \<not> is_word (last pre)"
    and "occurrence (pre @ cur @ cs) s e" and "length pre \<le> s"
  shows "(s, e) \<in> set (scan (length pre + length cur) cur cs)"
  using assms
proof (induction cs arbitrary: pre cur)
  case Nil
  from Nil(3) have "s < e" "e \<le> length pre + length cur" by (simp_all add: occurrence_def)
  then have "s \<le> length pre + length cur" by simp
  from word_span_unique [OF Nil(1) _ Nil(3) Nil(4) this]
  show ?case by (simp add: flush_def)
next
  case (Cons c cs)
  show ?case
  proof (cases "is_word c")
    case True
    have "(s, e) \<in> set (scan (length pre + length (cur @ [c])) (cur @ [c]) cs)"
      by (rule Cons.IH) (use Cons.prems True in auto)
    then show ?thesis using True by simp
  next
    case False
    show ?thesis
    proof (cases "s \<le> length pre + length cur")
      case True
      from word_span_unique [OF Cons.prems(1) _ Cons.prems(3) Cons.prems(4) True] False
      show ?thesis using \<open>\<not> is_word c\<close> by (simp add: flush_def)
    next
      case gt: False
      have "(s, e) \<in> set (scan (length (pre @ cur @ [c]) + length ([]::str)) [] cs)"
        by (rule Cons.IH) (use Cons.prems False gt in auto)
      then show ?thesis using False by simp
    qed
  qed
qed

lemma occurrence_table_matches: "occurrence t s e \<Longrightarrow> (s, e) \<in> set (table_matches t)"
  using scan_complete [of "[]" "[]" t s e] by (simp add: table_matches_scan)


lemma ci_eq_fold: "ci_eq n w \<longleftrightarrow> map re_fold w = map re_fold n"
  unfolding ci_eq_def
proof (induction n arbitrary: w)
  case Nil
  then show ?case by simp
next
  case (Cons a n)
  then show ?case by (cases w) auto
qed

lemma vocab_fold: "vocab w \<longleftrightarrow> map re_fold w \<in> map re_fold ` set TABLE_NAMES"
  by (auto simp: vocab_def ci_eq_fold)

lemma folded_names:
  "map re_fold ` set TABLE_NAMES =
     {cps ''mkpf'', cps ''mseg'', cps ''marc'', cps ''mard'', cps ''mchb'', cps ''mkol'',
      cps ''mslb'', cps ''mska'', cps ''mspr'', cps ''msku'', cps ''mssa'', cps ''mssl'',
      cps ''mssq'', cps ''mstb'', cps ''mste'', cps ''mstq'', cps ''mcsd'', cps ''mcss'',
      cps ''mscd'', cps ''mscs'', cps ''msfd'', cps ''msfs'', cps ''msid'', cps ''msis'',
      cps ''msrd'', cps ''msrs'', cps ''march'', cps ''mardh'', cps ''mchbh'', cps ''mkolh'',
      cps ''mslbh'', cps ''mskah'', cps ''mssah'', cps ''msprh'', cps ''mssqh'', cps ''mskuh'',
      cps ''mstbh'', cps ''msteh'', cps ''mstqh'', cps ''mcsdh'', cps ''mcssh'', cps ''mscdh'',
      cps ''msfdh'', cps ''msidh'', cps ''msrdh''}"
  unfolding names_literal by (simp add: cps_def re_fold_def)

lemma vocab_iff:
  "vocab w \<longleftrightarrow> map re_fold w \<in>
     {cps ''mkpf'', cps ''mseg'', cps ''marc'', cps ''mard'', cps ''mchb'', cps ''mkol'',
      cps ''mslb'', cps ''mska'', cps ''mspr'', cps ''msku'', cps ''mssa'', cps ''mssl'',
      cps ''mssq'', cps ''mstb'', cps ''mste'', cps ''mstq'', cps ''mcsd'', cps ''mcss'',
      cps ''mscd'', cps ''mscs'', cps ''msfd'', cps ''msfs'', cps ''msid'', cps ''msis'',
      cps ''msrd'', cps ''msrs'', cps ''march'', cps ''mardh'', cps ''mchbh'', cps ''mkolh'',
      cps ''mslbh'', cps ''mskah'', cps ''mssah'', cps ''msprh'', cps ''mssqh'', cps ''mskuh'',
      cps ''mstbh'', cps ''msteh'', cps ''mstqh'', cps ''mcsdh'', cps ''mcssh'', cps ''mscdh'',
      cps ''msfdh'', cps ''msidh'', cps ''msrdh''}"
  by (simp only: vocab_fold folded_names)

lemma upper_cp_ascii: "c < 128 \<Longrightarrow> upper_cp c = (if 97 \<le> c \<and> c \<le> 122 then [c - 32] else [c])"
  by (simp add: upper_cp_def)

lemma upper_cp_specials:
  "upper_cp 304 = [304]" "upper_cp 305 = [73]" "upper_cp 383 = [83]" "upper_cp 8490 = [8490]"
  by (simp_all add: upper_cp_def upper_table_defs)

lemmas char_eval = is_word_ascii is_word_specials is_space_def str_upper_def upper_cp_ascii
  upper_cp_specials re_fold_def nl_def cps_def

lemmas scan_eval = flush_def vocab_iff char_eval

section \<open>Failure semantics\<close>

text \<open>
  C8. The rewrite engine never raises: for every date and every text \<open>remediate_code\<close>
  returns a result (no \<open>KeyError\<close> branch is taken). On the empty string it returns the
  empty string and no issue, and on a text without a whole-word occurrence of a name of
  the vocabulary it returns the text unchanged and no issue.
\<close>

theorem remediate_code_never_raises:
  "(\<exists>r. remediate_code d txt = Inr r) \<and>
   remediate_code d [] = Inr ([], []) \<and>
   ((\<forall>s e. \<not> occurrence txt s e) \<longrightarrow> remediate_code d txt = Inr (txt, []))"
proof (intro conjI impI)
  show "\<exists>r. remediate_code d txt = Inr r" by (simp add: remediate_code_eq)
  show "remediate_code d [] = Inr ([], [])" by (simp add: remediate_code_def)
  assume no: "\<forall>s e. \<not> occurrence txt s e"
  have "table_matches txt = []"
  proof (cases "table_matches txt")
    case Nil
    then show ?thesis .
  next
    case (Cons m ms)
    then have "m \<in> set (table_matches txt)" by simp
    from table_matches_occurrence [OF this] no show ?thesis by simp
  qed
  then show "remediate_code d txt = Inr (txt, [])"
    by (simp add: remediate_code_eq rewritable_def)
qed

theorem remediate_code_never_raises_witness:
  "(\<forall>s e. \<not> occurrence (cps ''SELECT * FROM T001.'') s e) \<and>
   remediate_code \<lparr>year = 2025, month = 1, day = 9\<rparr> (cps ''SELECT * FROM T001.'') =
     Inr (cps ''SELECT * FROM T001.'', [])"
proof -
  have "table_matches (cps ''SELECT * FROM T001.'') = []"
    by (simp add: table_matches_scan scan_eval)
  then have h: "\<forall>s e. \<not> occurrence (cps ''SELECT * FROM T001.'') s e"
    using occurrence_table_matches [of "cps ''SELECT * FROM T001.''"] by auto
  with remediate_code_never_raises [of "\<lparr>year = 2025, month = 1, day = 9\<rparr>" "cps ''SELECT * FROM T001.''"]
  show ?thesis by simp
qed

lemma has_entry_iff:
  "has_entry txt m \<longleftrightarrow> str_upper (slice txt (fst m) (snd m)) \<in> set TABLE_NAMES"
  by (simp add: has_entry_def match_name_def set_TABLE_NAMES)

lemmas prot_eval = is_protected_def is_rewritable_def has_entry_iff names_literal match_name_def enclosing_line_def str_find_def str_rfind_def
  protected_def re_match_def update_modify_re_def delete_from_re_def slice_def Let_def
  word_boundary_def

lemma result_eq:
  "result_text (remediate_code d txt) = render txt (substitute d txt) 0 (table_matches txt)"
  "result_issues (remediate_code d txt) = map (issue_of txt) (rewritable txt)"
  by (simp_all add: remediate_code_eq result_text_def result_issues_def)

lemma rewritable_sorted: "sorted_wrt (\<lambda>a b. fst a < fst b) (rewritable txt)"
proof -
  have "sorted_wrt (\<lambda>a b. fst a < fst b) (table_matches txt)"
  proof (rule sorted_wrt_mono_rel [OF _ table_matches_sorted])
    fix a b :: "nat \<times> nat"
    assume "a \<in> set (table_matches txt)" "snd a < fst b"
    with table_matches_occurrence [of a "txt"] show "fst a < fst b"
      by (simp add: occurrence_def)
  qed
  then show ?thesis unfolding rewritable_def by (rule sorted_wrt_filter)
qed

lemma example_matches: "table_matches (cps ''UPDATE MSEG MARD'') = [(7, 11), (12, 16)]"
  by (simp add: table_matches_scan scan_eval)

lemma example_prot1: "is_protected (cps ''UPDATE MSEG MARD'') (7, 11)"
  by (simp add: prot_eval char_eval)

lemma example_prot2: "is_rewritable (cps ''UPDATE MSEG MARD'') (12, 16)"
  by (simp add: prot_eval char_eval)

lemma protected_not_rewritable: "is_protected txt m \<Longrightarrow> \<not> is_rewritable txt m"
  by (simp add: is_protected_def is_rewritable_def)

lemma rewritable_not_protected: "is_rewritable txt m \<Longrightarrow> \<not> is_protected txt m"
  by (simp add: is_protected_def is_rewritable_def)

lemma protected_has_entry: "is_protected txt m \<Longrightarrow> has_entry txt m"
  by (simp add: is_protected_def)

lemma rewritable_has_entry: "is_rewritable txt m \<Longrightarrow> has_entry txt m"
  by (simp add: is_rewritable_def)

lemma example_rewritable: "rewritable (cps ''UPDATE MSEG MARD'') = [(12, 16)]"
  by (simp add: rewritable_def example_matches protected_not_rewritable [OF example_prot1]
      example_prot2)

section \<open>Issues and matches\<close>

lemma ci_eq_upper_ascii:
  "\<forall>a \<in> set n. is_upper_letter a \<Longrightarrow> ci_eq n w \<Longrightarrow> \<forall>c \<in> set w. c < 128 \<Longrightarrow> str_upper w = n"
  unfolding ci_eq_def
proof (induction n arbitrary: w)
  case Nil
  then show ?case by (simp add: str_upper_def)
next
  case (Cons a n)
  then obtain c w' where w: "w = c # w'" by (cases w) auto
  from Cons.prems w have a: "is_upper_letter a" and e: "re_fold c = re_fold a" and c: "c < 128"
    by simp_all
  from a have r: "65 \<le> a" "a \<le> 90" by (simp_all add: is_upper_letter_def)
  from ci_letter [OF a e] c have "c = a \<or> c = a + 32" by arith
  then have u: "upper_cp c = [a]" using r c by (auto simp: upper_cp_ascii)
  have "str_upper w' = n" by (rule Cons.IH) (use Cons.prems w in auto)
  with u show ?case by (simp add: w str_upper_def)
qed

lemma vocab_upper_ascii: "vocab w \<Longrightarrow> \<forall>c \<in> set w. c < 128 \<Longrightarrow> str_upper w \<in> set TABLE_NAMES"
proof -
  assume "vocab w" and c: "\<forall>c \<in> set w. c < 128"
  then obtain n where n: "n \<in> set TABLE_NAMES" "ci_eq n w" by (auto simp: vocab_def)
  from names_valid [OF n(1)] have "\<forall>a \<in> set n. is_upper_letter a" by (simp add: valid_name_def)
  from ci_eq_upper_ascii [OF this n(2) c] n(1) show ?thesis by simp
qed

lemma ascii_match_has_entry:
  assumes "m \<in> set (table_matches txt)" and "\<forall>c \<in> set (slice txt (fst m) (snd m)). c < 128"
  shows "has_entry txt m"
proof -
  from table_matches_occurrence [OF assms(1)] have "vocab (slice txt (fst m) (snd m))"
    by (simp add: occurrence_def)
  from vocab_upper_ascii [OF this assms(2)] show ?thesis by (simp add: has_entry_iff)
qed

lemma length_filter3:
  "\<forall>x \<in> set xs. (P x \<and> \<not> Q x \<and> \<not> R x) \<or> (\<not> P x \<and> Q x \<and> \<not> R x) \<or> (\<not> P x \<and> \<not> Q x \<and> R x) \<Longrightarrow>
   length (filter P xs) + length (filter Q xs) + length (filter R xs) = length xs"
  by (induction xs) auto

lemma kelvin_matches: "table_matches kelvin_text = [(14, 18)]"
  by (simp add: kelvin_text_def table_matches_scan scan_eval)

lemma kelvin_name: "match_name kelvin_text (14, 18) = [77, 8490, 80, 70]"
  by (simp add: kelvin_text_def match_name_def slice_def char_eval)

lemma kelvin_line: "enclosing_line kelvin_text (14, 18) = cps ''SELECT * FROM M'' @ [8490] @ cps ''PF.''"
  by (simp add: kelvin_text_def enclosing_line_def str_find_def str_rfind_def slice_def Let_def
      char_eval)

lemma kelvin_no_entry: "\<not> has_entry kelvin_text (14, 18)"
  by (simp add: has_entry_def kelvin_name set_TABLE_NAMES [symmetric] names_literal cps_def)

lemma kelvin_not_protected:
  "\<not> protected (match_name kelvin_text (14, 18)) (enclosing_line kelvin_text (14, 18))"
  unfolding kelvin_name kelvin_line
  by (simp add: protected_def re_match_def update_modify_re_def delete_from_re_def
      word_boundary_def char_eval)

text \<open>
  C4, as the specification states it, fails. In \<open>SELECT * FROM MKPF.\<close> written with the
  Kelvin sign (the code point 8490) for the letter \<open>K\<close>, the matcher finds one match,
  since under \<open>IGNORECASE\<close> the Kelvin sign matches \<open>K\<close>. The protection test does not
  hold of it, so the specification classifies it rewritable; but its upper-cased text is
  no key of the reference mapping, \<open>if not info: continue\<close> skips it, and no issue is
  returned: zero issues for one match that is not protected.
\<close>

theorem skipped_match_no_issue:
  "table_matches (cps ''SELECT * FROM M'' @ [8490] @ cps ''PF.'') = [(14, 18)] \<and>
   \<not> protected (match_name (cps ''SELECT * FROM M'' @ [8490] @ cps ''PF.'') (14, 18))
       (enclosing_line (cps ''SELECT * FROM M'' @ [8490] @ cps ''PF.'') (14, 18)) \<and>
   result_issues
     (remediate_code \<lparr>year = 2025, month = 3, day = 9\<rparr>
        (cps ''SELECT * FROM M'' @ [8490] @ cps ''PF.'')) = []"
  unfolding kelvin_text_def [symmetric]
  using kelvin_matches kelvin_not_protected kelvin_no_entry
  by (simp add: result_eq rewritable_def is_rewritable_def)

text \<open>
  C4, amended. A match has one of three classes: protected, rewritable, or skipped (its
  upper-cased text is no key of the reference mapping). For every input text the number
  of issues returned equals the number of rewritable matches; protected and skipped
  matches contribute no issue, so the three classes together are as many as the
  matches. A match made of ASCII characters only is never skipped, so on such matches
  rewritable means not protected.
\<close>

theorem issue_count:
  "length (result_issues (remediate_code d txt)) = length (rewritable txt) \<and>
   length (result_issues (remediate_code d txt)) +
     length (filter (is_protected txt) (table_matches txt)) +
     length (filter (\<lambda>m. \<not> has_entry txt m) (table_matches txt)) = length (table_matches txt) \<and>
   (\<forall>m \<in> set (table_matches txt).
      (\<forall>c \<in> set (slice txt (fst m) (snd m)). c < 128) \<longrightarrow>
      has_entry txt m \<and> (is_rewritable txt m \<longleftrightarrow> \<not> is_protected txt m))"
proof (rule conjI)
  show "length (result_issues (remediate_code d txt)) = length (rewritable txt)"
    by (simp add: result_eq)
next
  have "length (filter (is_rewritable txt) (table_matches txt)) +
        length (filter (is_protected txt) (table_matches txt)) +
        length (filter (\<lambda>m. \<not> has_entry txt m) (table_matches txt)) = length (table_matches txt)"
    by (rule length_filter3) (auto simp: is_protected_def is_rewritable_def)
  then have 1: "length (result_issues (remediate_code d txt)) +
     length (filter (is_protected txt) (table_matches txt)) +
     length (filter (\<lambda>m. \<not> has_entry txt m) (table_matches txt)) = length (table_matches txt)"
    by (simp add: result_eq rewritable_def)
  have 2: "\<forall>m \<in> set (table_matches txt).
      (\<forall>c \<in> set (slice txt (fst m) (snd m)). c < 128) \<longrightarrow>
      has_entry txt m \<and> (is_rewritable txt m \<longleftrightarrow> \<not> is_protected txt m)"
  proof (intro ballI impI)
    fix m assume "m \<in> set (table_matches txt)" "\<forall>c \<in> set (slice txt (fst m) (snd m)). c < 128"
    then have "has_entry txt m" by (rule ascii_match_has_entry)
    then show "has_entry txt m \<and> (is_rewritable txt m \<longleftrightarrow> \<not> is_protected txt m)"
      by (simp add: is_protected_def is_rewritable_def)
  qed
  from 1 2 show "length (result_issues (remediate_code d txt)) +
     length (filter (is_protected txt) (table_matches txt)) +
     length (filter (\<lambda>m. \<not> has_entry txt m) (table_matches txt)) = length (table_matches txt) \<and>
   (\<forall>m \<in> set (table_matches txt).
      (\<forall>c \<in> set (slice txt (fst m) (snd m)). c < 128) \<longrightarrow>
      has_entry txt m \<and> (is_rewritable txt m \<longleftrightarrow> \<not> is_protected txt m))" by (rule conjI)
qed

theorem issue_count_witness:
  "length (result_issues
     (remediate_code \<lparr>year = 2025, month = 3, day = 9\<rparr> (cps ''UPDATE MSEG MARD''))) = 1 \<and>
   length (filter (is_protected (cps ''UPDATE MSEG MARD'')) (table_matches (cps ''UPDATE MSEG MARD''))) = 1 \<and>
   length (filter (\<lambda>m. \<not> has_entry (cps ''UPDATE MSEG MARD'') m)
     (table_matches (cps ''UPDATE MSEG MARD''))) = 0 \<and>
   length (table_matches (cps ''UPDATE MSEG MARD'')) = 2 \<and>
   (12, 16) \<in> set (table_matches (cps ''UPDATE MSEG MARD'')) \<and>
   has_entry (cps ''UPDATE MSEG MARD'') (12, 16)"
proof -
  have a: "\<forall>c \<in> set (slice (cps ''UPDATE MSEG MARD'') 12 16). c < 128"
    by (simp add: slice_def cps_def)
  have p: "\<not> is_protected (cps ''UPDATE MSEG MARD'') (12, 16)"
    by (rule rewritable_not_protected [OF example_prot2])
  note w = issue_count [of "\<lparr>year = 2025, month = 3, day = 9\<rparr>" "cps ''UPDATE MSEG MARD''",
      unfolded example_matches example_rewritable]
  from w a example_prot1 p protected_has_entry [OF example_prot1] show ?thesis
    by (simp add: example_matches example_rewritable)
qed

text \<open>
  C5. The issue list follows the order of the matches in the original text: it is the
  list of the issues of the rewritable matches, taken in a list of matches whose start
  offsets are strictly increasing.
\<close>

theorem issues_in_offset_order:
  "result_issues (remediate_code d txt) = map (issue_of txt) (rewritable txt) \<and>
   sorted_wrt (\<lambda>a b. fst a < fst b) (rewritable txt) \<and>
   set (rewritable txt) \<subseteq> set (table_matches txt)"
  by (simp add: result_eq rewritable_sorted) (simp add: rewritable_def)

theorem issues_in_offset_order_witness:
  "map table (result_issues (remediate_code \<lparr>year = 2025, month = 1, day = 9\<rparr> (cps ''MARD MSEG''))) =
     [(cps ''MARD''), (cps ''MSEG'')] \<and>
   rewritable (cps ''MARD MSEG'') = [(0, 4), (5, 9)]"
proof -
  have m: "table_matches (cps ''MARD MSEG'') = [(0, 4), (5, 9)]"
    by (simp add: table_matches_scan scan_eval)
  have "is_rewritable (cps ''MARD MSEG'') (0, 4)" "is_rewritable (cps ''MARD MSEG'') (5, 9)"
    by (simp_all add: prot_eval char_eval)
  then have r: "rewritable (cps ''MARD MSEG'') = [(0, 4), (5, 9)]"
    by (simp add: rewritable_def m)
  have n: "match_name (cps ''MARD MSEG'') (0, 4) = (cps ''MARD'')" "match_name (cps ''MARD MSEG'') (5, 9) = (cps ''MSEG'')"
    by (simp_all add: match_name_def slice_def char_eval)
  from issues_in_offset_order [of "\<lparr>year = 2025, month = 1, day = 9\<rparr>" "cps ''MARD MSEG''"]
  show ?thesis by (simp add: r m issue_of_def n Let_def)
qed

lemma render_cong: "(\<forall>m \<in> set ms. f m = g m) \<Longrightarrow> render t f a ms = render t g a ms"
  by (induction ms arbitrary: a) simp_all

lemma map_of_fold_update:
  "map_of (fold (\<lambda>p. AList.update (fst p) (snd p)) b a) = map_of a ++ map_of (rev b)"
proof (induction b arbitrary: a)
  case Nil
  show ?case by simp
next
  case (Cons x b)
  have "map_of (fold (\<lambda>p. AList.update (fst p) (snd p)) (x # b) a) =
        map_of (AList.update (fst x) (snd x) a) ++ map_of (rev b)"
    by (simp add: Cons.IH)
  also have "map_of (AList.update (fst x) (snd x) a) = map_of a ++ map_of [x]"
    by (simp add: AList.update_conv')
  also have "(map_of a ++ map_of [x]) ++ map_of (rev b) = map_of a ++ map_of (rev (x # b))"
    by (simp only: rev.simps map_of_append map_add_assoc)
  finally show ?case .
qed

lemma map_of_merge: "map_of (dict_merge a b) = map_of a ++ map_of (rev b)"
  by (simp add: dict_merge_def split_def map_of_fold_update)

lemma lookup_MARD:
  "map_of TABLE_MAP (cps ''MARD'') =
     Some [(''new'', (cps ''NSDM_V_MARD'')), (''note'', (cps ''Storage location data no longer persisted.''))]"
proof -
  have 1: "map_of (rev HISTORY_MAP) (cps ''MARD'') = None"
    by (simp add: HISTORY_MAP_def entry_def cps_def)
  have 2: "map_of (rev DIMP_MAP) (cps ''MARD'') = None"
    by (simp add: DIMP_MAP_def entry_def cps_def)
  have 3: "map_of (rev AGGR_MAP) (cps ''MARD'') = None"
    by (simp add: AGGR_MAP_def entry_def cps_def)
  have 4: "map_of (rev HYBRID_MAP) (cps ''MARD'') =
     Some [(''new'', (cps ''NSDM_V_MARD'')), (''note'', (cps ''Storage location data no longer persisted.''))]"
    by (simp add: HYBRID_MAP_def entry_def cps_def)
  show ?thesis
    by (simp add: TABLE_MAP_def map_of_merge map_add_def 1 2 3 4)
qed

lemma note_of_MARD: "note_of (cps ''MARD'') = Some (cps ''Storage location data no longer persisted.'')"
proof -
  have "cps ''Storage location data no longer persisted.'' \<noteq> []" by (simp add: cps_def)
  then show ?thesis by (simp add: note_of_def lookup_MARD)
qed

lemma strftime_example: "strftime_ymd \<lparr>year = 2025, month = 3, day = 9\<rparr> = (cps ''2025-03-09'')"
  by (simp add: strftime_ymd_def pad2_def dec.simps digit_char_def cps_def)

lemma strftime_example2: "strftime_ymd \<lparr>year = 2025, month = 3, day = 10\<rparr> = (cps ''2025-03-10'')"
  by (simp add: strftime_ymd_def pad2_def dec.simps digit_char_def cps_def)






section \<open>The fields of an issue\<close>




section \<open>What the outputs depend on\<close>

text \<open>
  C3, as the specification states it, fails: the remediated text carries the date of the
  run, so two runs on the same text on different days give different texts.
\<close>

theorem text_depends_on_date:
  "result_text (remediate_code \<lparr>year = 2025, month = 3, day = 9\<rparr> (cps ''MARD'')) \<noteq>
   result_text (remediate_code \<lparr>year = 2025, month = 3, day = 10\<rparr> (cps ''MARD''))"
proof -
  have m: "table_matches (cps ''MARD'') = [(0, 4)]"
    by (simp add: table_matches_scan scan_eval)
  have p: "is_rewritable (cps ''MARD'') (0, 4)"
    by (simp add: prot_eval char_eval)
  have ne: "cps ''2025-03-09'' \<noteq> cps ''2025-03-10''" by (simp add: cps_def)
  have d: "drop 4 (cps ''MARD'') = []" by (simp add: cps_def)
  show ?thesis
    by (simp add: remediate_code_eq result_text_def m substitute_def p change_marker_def
        strftime_example strftime_example2 slice_def ne d)
qed

text \<open>
  C3, amended. The two outputs are a function of the original text, the fixed vocabulary
  and the date of the run. The issue list does not depend on the date; the text depends
  on it through the date string of the annotation only, and not at all when no match is
  rewritable.
\<close>

theorem outputs_depend_on_text_and_date:
  "result_issues (remediate_code d1 txt) = result_issues (remediate_code d2 txt) \<and>
   (strftime_ymd d1 = strftime_ymd d2 \<longrightarrow> remediate_code d1 txt = remediate_code d2 txt) \<and>
   (rewritable txt = [] \<longrightarrow> remediate_code d1 txt = remediate_code d2 txt)"
proof (intro conjI impI)
  show "result_issues (remediate_code d1 txt) = result_issues (remediate_code d2 txt)"
    by (simp add: remediate_code_eq result_issues_def)
next
  assume "strftime_ymd d1 = strftime_ymd d2"
  then have "substitute d1 txt = substitute d2 txt"
    by (simp add: substitute_def change_marker_def fun_eq_iff)
  then show "remediate_code d1 txt = remediate_code d2 txt"
    by (simp add: remediate_code_eq)
next
  assume "rewritable txt = []"
  then have "\<forall>m \<in> set (table_matches txt). \<not> is_rewritable txt m"
    by (simp add: rewritable_def filter_empty_conv)
  then have "\<forall>m \<in> set (table_matches txt). substitute d1 txt m = substitute d2 txt m"
    by (simp add: substitute_def)
  from render_cong [OF this] show "remediate_code d1 txt = remediate_code d2 txt"
    by (simp add: remediate_code_eq)
qed

theorem outputs_depend_on_text_and_date_witness:
  "rewritable (cps ''UPDATE MSEG SET ...'') = [] \<and>
   remediate_code \<lparr>year = 2025, month = 3, day = 9\<rparr> (cps ''UPDATE MSEG SET ...'') =
   remediate_code \<lparr>year = 2025, month = 3, day = 10\<rparr> (cps ''UPDATE MSEG SET ...'')"
proof -
  have m: "table_matches (cps ''UPDATE MSEG SET ...'') = [(7, 11)]"
    by (simp add: table_matches_scan scan_eval)
  have p: "is_protected (cps ''UPDATE MSEG SET ...'') (7, 11)"
    by (simp add: prot_eval char_eval)
  have r: "rewritable (cps ''UPDATE MSEG SET ...'') = []"
    by (simp add: rewritable_def m protected_not_rewritable [OF p])
  with outputs_depend_on_text_and_date
    [of "\<lparr>year = 2025, month = 3, day = 9\<rparr>" "cps ''UPDATE MSEG SET ...''"
        "\<lparr>year = 2025, month = 3, day = 10\<rparr>"]
  show ?thesis by simp
qed










section \<open>The annotation\<close>



lemma vocab_MARCH: "vocab (cps ''MARCH'')"
  by (simp add: vocab_iff char_eval)

lemma occurrence_MARCH:
  assumes "pre = [] \<or> \<not> is_word (last pre)" and "post = [] \<or> \<not> is_word (hd post)"
  shows "occurrence (pre @ cps ''MARCH'' @ post) (length pre) (length pre + 5)"
proof -
  let ?t = "pre @ cps ''MARCH'' @ post"
  have s: "length pre = 0 \<or> \<not> is_word (?t ! (length pre - 1))"
    using assms(1) by (cases "pre = []") (simp_all add: nth_append last_conv_nth)
  have e: "length pre + 5 = length ?t \<or> \<not> is_word (?t ! (length pre + 5))"
  proof (cases post)
    case Nil
    then show ?thesis by simp
  next
    case (Cons c cs)
    have "(pre @ cps ''MARCH'') @ post = ?t" "length (pre @ cps ''MARCH'') = length pre + 5"
      by simp_all
    with nth_append_length [of "pre @ cps ''MARCH''" c cs] Cons
    have "?t ! (length pre + 5) = c" by (simp only:)
    with assms(2) Cons show ?thesis by simp
  qed
  have l5: "length (cps ''MARCH'') = 5" by simp
  have "slice ?t (length pre) (length pre + 5) = cps ''MARCH''"
    using slice_mid [of pre "cps ''MARCH''" post] unfolding l5 .
  with s e vocab_MARCH show ?thesis by (simp add: occurrence_def)
qed

lemma MARCH_name: "cps ''MARCH'' \<in> set TABLE_NAMES"
  by (simp add: names_literal)

lemma replacement_MARCH: "replacement_of (cps ''MARCH'') = cps ''NSDM_V_MARCH''"
proof -
  have "cps ''MARCH'' \<noteq> cps ''MKPF''" "cps ''MARCH'' \<noteq> cps ''MSEG''"
    "cps ''NSDM_V_'' @ cps ''MARCH'' = cps ''NSDM_V_MARCH''"
    by (simp_all add: cps_def)
  then show ?thesis by (simp add: replacement_of_name [OF MARCH_name])
qed

lemma str_upper_MARCH: "str_upper (cps ''MARCH'') = cps ''MARCH''"
  by (simp add: char_eval)

lemma render_split:
  "m \<in> set ms \<Longrightarrow> \<exists>A B. render t f a ms = A @ f m @ B"
proof (induction ms arbitrary: a)
  case Nil
  then show ?case by simp
next
  case (Cons x ms)
  show ?case
  proof (cases "m = x")
    case True
    have "render t f a (x # ms) = slice t a (fst x) @ f x @ render t f (snd x) ms" by simp
    with True show ?thesis by blast
  next
    case False
    with Cons.prems have "m \<in> set ms" by simp
    from Cons.IH [OF this, of "snd x"] obtain A B where
      "render t f (snd x) ms = A @ f m @ B" by blast
    then have "render t f a (x # ms) = (slice t a (fst x) @ f x @ A) @ f m @ B" by simp
    then show ?thesis by blast
  qed
qed

section \<open>Whole words\<close>

text \<open>
  C6. Every match of the matcher is a whole-word occurrence: it is not empty, no word
  character (letter, digit or underscore) stands next to it on either side, and it
  equals a name of the vocabulary up to case. When the text contains the token
  \<open>MARCH\<close>, with no word character next to it, the matcher matches the five letters: no
  other match starts within the token, so the embedded \<open>MARC\<close> is never matched. When
  that match is rewritable, \<open>remediate_code\<close> returns a text that contains
  \<open>NSDM_V_MARCH\<close> followed by the annotation, and an issue for the table \<open>MARCH\<close> that
  reads \<open>Replaced MARCH with NSDM_V_MARCH.\<close>; when it is the only match, the returned
  text is the text before the token, \<open>NSDM_V_MARCH\<close>, the annotation and the text after
  the token.
\<close>

theorem matches_are_whole_words:
  "(\<forall>m \<in> set (table_matches txt).
      fst m < snd m \<and> snd m \<le> length txt \<and>
      (fst m = 0 \<or> \<not> is_word (txt ! (fst m - 1))) \<and>
      (snd m = length txt \<or> \<not> is_word (txt ! snd m)) \<and>
      (\<exists>n \<in> set TABLE_NAMES. ci_eq n (slice txt (fst m) (snd m)))) \<and>
   ((pre = [] \<or> \<not> is_word (last pre)) \<and> (post = [] \<or> \<not> is_word (hd post)) \<longrightarrow>
      (length pre, length pre + 5) \<in> set (table_matches (pre @ cps ''MARCH'' @ post)) \<and>
      (\<forall>m \<in> set (table_matches (pre @ cps ''MARCH'' @ post)).
         length pre \<le> fst m \<and> fst m \<le> length pre + 5 \<longrightarrow> m = (length pre, length pre + 5)) \<and>
      match_name (pre @ cps ''MARCH'' @ post) (length pre, length pre + 5) = cps ''MARCH'' \<and>
      (is_rewritable (pre @ cps ''MARCH'' @ post) (length pre, length pre + 5) \<longrightarrow>
         (\<exists>A B. result_text (remediate_code d (pre @ cps ''MARCH'' @ post)) =
                  A @ cps ''NSDM_V_MARCH'' @ change_marker d @ B) \<and>
         (\<exists>i \<in> set (result_issues (remediate_code d (pre @ cps ''MARCH'' @ post))).
            table i = cps ''MARCH'' \<and>
            suggested_statement i = cps ''Replaced MARCH with NSDM_V_MARCH.'') \<and>
         (table_matches (pre @ cps ''MARCH'' @ post) = [(length pre, length pre + 5)] \<longrightarrow>
            result_text (remediate_code d (pre @ cps ''MARCH'' @ post)) =
              pre @ cps ''NSDM_V_MARCH'' @ change_marker d @ post)))"
proof (rule conjI)
  show "\<forall>m \<in> set (table_matches txt).
      fst m < snd m \<and> snd m \<le> length txt \<and>
      (fst m = 0 \<or> \<not> is_word (txt ! (fst m - 1))) \<and>
      (snd m = length txt \<or> \<not> is_word (txt ! snd m)) \<and>
      (\<exists>n \<in> set TABLE_NAMES. ci_eq n (slice txt (fst m) (snd m)))"
  proof
    fix m assume "m \<in> set (table_matches txt)"
    from table_matches_occurrence [OF this]
    show "fst m < snd m \<and> snd m \<le> length txt \<and>
      (fst m = 0 \<or> \<not> is_word (txt ! (fst m - 1))) \<and>
      (snd m = length txt \<or> \<not> is_word (txt ! snd m)) \<and>
      (\<exists>n \<in> set TABLE_NAMES. ci_eq n (slice txt (fst m) (snd m)))"
      by (simp add: occurrence_def vocab_def)
  qed
next
  let ?t = "pre @ cps ''MARCH'' @ post"
  let ?m = "(length pre, length pre + 5)"
  let ?R = "(\<exists>A B. result_text (remediate_code d ?t) =
                  A @ cps ''NSDM_V_MARCH'' @ change_marker d @ B) \<and>
         (\<exists>i \<in> set (result_issues (remediate_code d ?t)).
            table i = cps ''MARCH'' \<and>
            suggested_statement i = cps ''Replaced MARCH with NSDM_V_MARCH.'') \<and>
         (table_matches ?t = [?m] \<longrightarrow>
            result_text (remediate_code d ?t) =
              pre @ cps ''NSDM_V_MARCH'' @ change_marker d @ post)"
  show "(pre = [] \<or> \<not> is_word (last pre)) \<and> (post = [] \<or> \<not> is_word (hd post)) \<longrightarrow>
      ?m \<in> set (table_matches ?t) \<and>
      (\<forall>m \<in> set (table_matches ?t).
         length pre \<le> fst m \<and> fst m \<le> length pre + 5 \<longrightarrow> m = ?m) \<and>
      match_name ?t ?m = cps ''MARCH'' \<and>
      (is_rewritable ?t ?m \<longrightarrow> ?R)"
  proof
    assume a: "(pre = [] \<or> \<not> is_word (last pre)) \<and> (post = [] \<or> \<not> is_word (hd post))"
    from a have o: "occurrence ?t (length pre) (length pre + 5)"
      by (intro occurrence_MARCH) simp_all
    then have 1: "?m \<in> set (table_matches ?t)"
      by (rule occurrence_table_matches)
    have l5: "length (cps ''MARCH'') = 5" by simp
    have sl: "slice ?t (length pre) (length pre + 5) = cps ''MARCH''"
      using slice_mid [of pre "cps ''MARCH''" post] unfolding l5 .
    then have n: "match_name ?t ?m = cps ''MARCH''"
      by (simp add: match_name_def str_upper_MARCH)
    have 3: "is_rewritable ?t ?m \<longrightarrow> ?R"
    proof
      assume r: "is_rewritable ?t ?m"
      then have s: "substitute d ?t ?m = cps ''NSDM_V_MARCH'' @ change_marker d"
        using n by (simp add: substitute_def replacement_MARCH)
      from render_split [OF 1, of ?t "substitute d ?t" 0] obtain A B where
        "render ?t (substitute d ?t) 0 (table_matches ?t) = A @ substitute d ?t ?m @ B" by blast
      then have "result_text (remediate_code d ?t) =
                 A @ cps ''NSDM_V_MARCH'' @ change_marker d @ B"
        by (simp add: result_eq s)
      then have R1: "\<exists>A B. result_text (remediate_code d ?t) =
                  A @ cps ''NSDM_V_MARCH'' @ change_marker d @ B" by blast
      from r 1 have "?m \<in> set (rewritable ?t)" by (simp add: rewritable_def)
      then have i: "issue_of ?t ?m \<in> set (result_issues (remediate_code d ?t))"
        by (simp add: result_eq)
      have st: "cps ''Replaced '' @ cps ''MARCH'' @ cps '' with '' @ cps ''NSDM_V_MARCH'' @ cps ''.'' =
                cps ''Replaced MARCH with NSDM_V_MARCH.''"
        by (simp add: cps_def)
      have "table (issue_of ?t ?m) = cps ''MARCH'' \<and>
            suggested_statement (issue_of ?t ?m) = cps ''Replaced MARCH with NSDM_V_MARCH.''"
        unfolding issue_of_def Let_def n replacement_MARCH by (simp add: st)
      with i have R2: "\<exists>i \<in> set (result_issues (remediate_code d ?t)).
            table i = cps ''MARCH'' \<and>
            suggested_statement i = cps ''Replaced MARCH with NSDM_V_MARCH.''" by blast
      have R3: "table_matches ?t = [?m] \<longrightarrow>
            result_text (remediate_code d ?t) =
              pre @ cps ''NSDM_V_MARCH'' @ change_marker d @ post"
      proof
        assume "table_matches ?t = [?m]"
        then show "result_text (remediate_code d ?t) =
              pre @ cps ''NSDM_V_MARCH'' @ change_marker d @ post"
          by (simp add: result_eq s slice_def)
      qed
      from R1 R2 R3 show ?R by blast
    qed
    have 2: "\<forall>m \<in> set (table_matches ?t).
         length pre \<le> fst m \<and> fst m \<le> length pre + 5 \<longrightarrow> m = ?m"
    proof (intro ballI impI)
      fix m assume m: "m \<in> set (table_matches ?t)"
        and r: "length pre \<le> fst m \<and> fst m \<le> length pre + 5"
      have w: "\<forall>c \<in> set (cps ''MARCH''). is_word c" by (simp add: char_eval)
      from a have p: "post = [] \<or> \<not> is_word (hd post)" by simp
      from r have r1: "length pre \<le> fst m" and r2: "fst m \<le> length pre + length (cps ''MARCH'')"
        by simp_all
      from word_span_unique [OF w p table_matches_occurrence [OF m] r1 r2]
      show "m = ?m" by (cases m) simp
    qed
    from 1 2 n 3 show "?m \<in> set (table_matches ?t) \<and>
      (\<forall>m \<in> set (table_matches ?t).
         length pre \<le> fst m \<and> fst m \<le> length pre + 5 \<longrightarrow> m = ?m) \<and>
      match_name ?t ?m = cps ''MARCH'' \<and>
      (is_rewritable ?t ?m \<longrightarrow> ?R)"
      by blast
  qed
qed

theorem matches_are_whole_words_witness:
  "(14, 19) \<in> set (table_matches (cps ''SELECT * FROM MARCH.'')) \<and>
   (14, 18) \<notin> set (table_matches (cps ''SELECT * FROM MARCH.'')) \<and>
   match_name (cps ''SELECT * FROM MARCH.'') (14, 19) = cps ''MARCH'' \<and>
   is_rewritable (cps ''SELECT * FROM MARCH.'') (14, 19) \<and>
   table_matches (cps ''SELECT * FROM MARCH.'') = [(14, 19)] \<and>
   result_text (remediate_code \<lparr>year = 2025, month = 3, day = 9\<rparr> (cps ''SELECT * FROM MARCH.'')) =
     cps ''SELECT * FROM '' @ cps ''NSDM_V_MARCH'' @
     change_marker \<lparr>year = 2025, month = 3, day = 9\<rparr> @ cps ''.''"
proof -
  have h: "(cps ''SELECT * FROM '' = [] \<or> \<not> is_word (last (cps ''SELECT * FROM ''))) \<and>
           (cps ''.'' = [] \<or> \<not> is_word (hd (cps ''.'')))"
    by (simp add: char_eval)
  have p: "is_rewritable (cps ''SELECT * FROM MARCH.'') (14, 19)"
    by (simp add: prot_eval char_eval)
  have ms: "table_matches (cps ''SELECT * FROM MARCH.'') = [(14, 19)]"
    by (simp add: table_matches_scan scan_eval)
  have l: "length (cps ''SELECT * FROM '') = 14" by simp
  have t: "cps ''SELECT * FROM '' @ cps ''MARCH'' @ cps ''.'' = cps ''SELECT * FROM MARCH.''"
    by (simp add: cps_def)
  have e: "(14::nat) + 5 = 19" by simp
  note w = matches_are_whole_words
    [of "cps ''SELECT * FROM MARCH.''" "cps ''SELECT * FROM ''" "cps ''.''"
        "\<lparr>year = 2025, month = 3, day = 9\<rparr>", unfolded l t e]
  from w h have 1: "(14, 19) \<in> set (table_matches (cps ''SELECT * FROM MARCH.''))"
    and 2: "\<forall>m \<in> set (table_matches (cps ''SELECT * FROM MARCH.'')).
         14 \<le> fst m \<and> fst m \<le> 19 \<longrightarrow> m = (14, 19)"
    and 3: "match_name (cps ''SELECT * FROM MARCH.'') (14, 19) = cps ''MARCH''"
    and 4: "is_rewritable (cps ''SELECT * FROM MARCH.'') (14, 19) \<longrightarrow>
         (table_matches (cps ''SELECT * FROM MARCH.'') = [(14, 19)] \<longrightarrow>
            result_text (remediate_code \<lparr>year = 2025, month = 3, day = 9\<rparr>
              (cps ''SELECT * FROM MARCH.'')) =
              cps ''SELECT * FROM '' @ cps ''NSDM_V_MARCH'' @
              change_marker \<lparr>year = 2025, month = 3, day = 9\<rparr> @ cps ''.'')"
    by blast+
  have 5: "(14, 18) \<notin> set (table_matches (cps ''SELECT * FROM MARCH.''))"
  proof
    assume "(14, 18) \<in> set (table_matches (cps ''SELECT * FROM MARCH.''))"
    with 2 have "(14::nat, 18::nat) = (14, 19)" by fastforce
    then show False by simp
  qed
  from 4 p ms have "result_text (remediate_code \<lparr>year = 2025, month = 3, day = 9\<rparr>
              (cps ''SELECT * FROM MARCH.'')) =
              cps ''SELECT * FROM '' @ cps ''NSDM_V_MARCH'' @
              change_marker \<lparr>year = 2025, month = 3, day = 9\<rparr> @ cps ''.''" by blast
  with 1 5 3 p ms show ?thesis by blast
qed

end
